theory Spec2Isabelle
  imports Complex_Main "HOL-Library.AList" "HOL-Library.Sublist"
begin

section \<open>JavaScript strings and values\<close>

text \<open>
  A JavaScript string is a sequence of UTF-16 code units; \<open>length\<close>, \<open>substring\<close> and the
  regular expressions of the source (none has the \<open>u\<close> flag) all work on code units. A code
  unit is modelled as a natural number, a string as the list of its code units, and
  \<open>ustr\<close> writes an ASCII literal.
\<close>

type_synonym codeunit = nat
type_synonym jsstring = "codeunit list"

definition ustr :: "string \<Rightarrow> jsstring" where
  "ustr s = map of_char s"

text \<open>
  The values a JavaScript variable can hold, as far as the source distinguishes them:
  \<open>typeof v === 'string'\<close> holds of \<open>JSString\<close> only, and the only falsy string is the
  empty one. Objects keep their properties in insertion order.
\<close>

datatype jsval =
    JSUndefined
  | JSNull
  | JSBoolean bool
  | JSNumber int
  | JSString jsstring
  | JSObject "(jsstring \<times> jsval) list"

subsection \<open>Character classes of ECMAScript regular expressions\<close>

text \<open>\<open>\s\<close>: WhiteSpace and LineTerminator code points.\<close>

definition isSpace :: "codeunit \<Rightarrow> bool" where
  "isSpace c \<longleftrightarrow>
     c = 9 \<or> c = 10 \<or> c = 11 \<or> c = 12 \<or> c = 13 \<or> c = 32 \<or> c = 160 \<or> c = 5760 \<or>
     (8192 \<le> c \<and> c \<le> 8202) \<or> c = 8232 \<or> c = 8233 \<or> c = 8239 \<or> c = 8287 \<or>
     c = 12288 \<or> c = 65279"

text \<open>LineTerminator: the characters at which \<open>^\<close> and \<open>$\<close> match under the \<open>m\<close> flag.\<close>

definition isLineTerminator :: "codeunit \<Rightarrow> bool" where
  "isLineTerminator c \<longleftrightarrow> c = 10 \<or> c = 13 \<or> c = 8232 \<or> c = 8233"

text \<open>\<open>\d\<close> is \<open>[0-9]\<close> and \<open>\w\<close> is \<open>[A-Za-z0-9_]\<close>.\<close>

definition isDigit :: "codeunit \<Rightarrow> bool" where
  "isDigit c \<longleftrightarrow> 48 \<le> c \<and> c \<le> 57"

definition isWord :: "codeunit \<Rightarrow> bool" where
  "isWord c \<longleftrightarrow> (65 \<le> c \<and> c \<le> 90) \<or> (97 \<le> c \<and> c \<le> 122) \<or> isDigit c \<or> c = 95"

text \<open>\<open>[^\S\n]\<close>: white space other than the line feed.\<close>

definition isSpaceNotLF :: "codeunit \<Rightarrow> bool" where
  "isSpaceNotLF c \<longleftrightarrow> isSpace c \<and> c \<noteq> 10"

text \<open>\<open>[ \t]\<close>\<close>

definition isBlank :: "codeunit \<Rightarrow> bool" where
  "isBlank c \<longleftrightarrow> c = 32 \<or> c = 9"

text \<open>\<open>[.,!?;:]\<close>\<close>

definition isPunct :: "codeunit \<Rightarrow> bool" where
  "isPunct c \<longleftrightarrow> c = 46 \<or> c = 44 \<or> c = 33 \<or> c = 63 \<or> c = 59 \<or> c = 58"

text \<open>\<open>[\w.-]\<close>\<close>

definition isMailChar :: "codeunit \<Rightarrow> bool" where
  "isMailChar c \<longleftrightarrow> isWord c \<or> c = 46 \<or> c = 45"

text \<open>\<open>[^\s]\<close>\<close>

definition isNonSpace :: "codeunit \<Rightarrow> bool" where
  "isNonSpace c \<longleftrightarrow> \<not> isSpace c"

text \<open>\<open>String.prototype.trim\<close> strips WhiteSpace and LineTerminator from both ends.\<close>

definition trim :: "jsstring \<Rightarrow> jsstring" where
  "trim s = rev (dropWhile isSpace (rev (dropWhile isSpace s)))"

section \<open>Global replacement by a regular expression\<close>

text \<open>
  Every regular expression of the source is an alternation of sequences whose members
  are an anchor or a quantified character class, possibly captured. \<open>Rep cap p lo hi\<close> is
  the class \<open>p\<close> repeated greedily between \<open>lo\<close> and \<open>hi\<close> times (\<open>None\<close>: unbounded), inside
  a capturing group when \<open>cap\<close> holds; \<open>Bol\<close> and \<open>Eol\<close> are \<open>^\<close> and \<open>$\<close> under the \<open>m\<close> flag.
\<close>

datatype item =
    Bol
  | Eol
  | Rep bool "codeunit \<Rightarrow> bool" nat "nat option"

type_synonym regex = "item list list"

definition lit :: "codeunit \<Rightarrow> item" where
  "lit c = Rep False (\<lambda>x. x = c) 1 (Some 1)"

definition cls :: "(codeunit \<Rightarrow> bool) \<Rightarrow> item" where
  "cls p = Rep False p 1 (Some 1)"

definition optional :: "(codeunit \<Rightarrow> bool) \<Rightarrow> item" where
  "optional p = Rep False p 0 (Some 1)"

definition many0 :: "(codeunit \<Rightarrow> bool) \<Rightarrow> item" where
  "many0 p = Rep False p 0 None"

definition many1 :: "(codeunit \<Rightarrow> bool) \<Rightarrow> item" where
  "many1 p = Rep False p 1 None"

definition manyN :: "nat \<Rightarrow> (codeunit \<Rightarrow> bool) \<Rightarrow> item" where
  "manyN n p = Rep False p n None"

definition capCls :: "(codeunit \<Rightarrow> bool) \<Rightarrow> item" where
  "capCls p = Rep True p 1 (Some 1)"

definition capMany1 :: "(codeunit \<Rightarrow> bool) \<Rightarrow> item" where
  "capMany1 p = Rep True p 1 None"

definition atLineStart :: "codeunit option \<Rightarrow> bool" where
  "atLineStart prev = (case prev of None \<Rightarrow> True | Some c \<Rightarrow> isLineTerminator c)"

definition atLineEnd :: "jsstring \<Rightarrow> bool" where
  "atLineEnd s = (case s of [] \<Rightarrow> True | c # _ \<Rightarrow> isLineTerminator c)"

text \<open>The character before the position reached after \<open>k\<close> more code units of \<open>s\<close>.\<close>

definition prevAfter :: "codeunit option \<Rightarrow> jsstring \<Rightarrow> nat \<Rightarrow> codeunit option" where
  "prevAfter prev s k = (if k = 0 \<or> length s < k then prev else Some (s ! (k - 1)))"

definition bounded :: "nat option \<Rightarrow> nat \<Rightarrow> nat" where
  "bounded hi n = (case hi of None \<Rightarrow> n | Some h \<Rightarrow> min h n)"

text \<open>
  \<open>matchItems its prev s\<close> matches the sequence \<open>its\<close> at the start of \<open>s\<close>, where \<open>prev\<close>
  is the code unit before \<open>s\<close> in the subject; it returns the captures, left to right,
  and the number of code units matched. A greedy quantifier backtracks: \<open>tryCounts\<close> takes
  the longest repetition first, then one fewer, down to \<open>lo\<close>, and the first count for
  which the rest of the sequence matches wins.
\<close>

fun matchItems :: "item list \<Rightarrow> codeunit option \<Rightarrow> jsstring \<Rightarrow> (jsstring list \<times> nat) option"
  and tryCounts :: "item list \<Rightarrow> bool \<Rightarrow> nat \<Rightarrow> codeunit option \<Rightarrow> jsstring \<Rightarrow> nat \<Rightarrow> (jsstring list \<times> nat) option"
where
  "matchItems [] prev s = Some ([], 0)"
| "matchItems (Bol # its) prev s = (if atLineStart prev then matchItems its prev s else None)"
| "matchItems (Eol # its) prev s = (if atLineEnd s then matchItems its prev s else None)"
| "matchItems (Rep cap p lo hi # its) prev s =
     tryCounts its cap lo prev s (bounded hi (length (takeWhile p s)))"
| "tryCounts its cap lo prev s 0 =
     (if 0 < lo then None
      else case matchItems its prev s of
             None \<Rightarrow> None
           | Some (caps, n) \<Rightarrow> Some ((if cap then [[]] else []) @ caps, n))"
| "tryCounts its cap lo prev s (Suc k) =
     (if Suc k < lo then None
      else case matchItems its (prevAfter prev s (Suc k)) (drop (Suc k) s) of
             None \<Rightarrow> tryCounts its cap lo prev s k
           | Some (caps, n) \<Rightarrow> Some ((if cap then [take (Suc k) s] else []) @ caps, Suc k + n))"

text \<open>Alternatives are tried in order at one position.\<close>

fun matchRegex :: "regex \<Rightarrow> codeunit option \<Rightarrow> jsstring \<Rightarrow> (jsstring list \<times> nat) option" where
  "matchRegex [] prev s = None"
| "matchRegex (alt # alts) prev s =
     (case matchItems alt prev s of Some r \<Rightarrow> Some r | None \<Rightarrow> matchRegex alts prev s)"

text \<open>
  A replacement string: text, \<open>$n\<close> (the \<open>n\<close>th capture; the source only names groups of
  its expression, and a group that took no part expands to the empty string) and \<open>$&\<close>
  (the match).
\<close>

datatype tpart = Txt jsstring | Ref nat | Whole

fun expand :: "tpart list \<Rightarrow> jsstring list \<Rightarrow> jsstring \<Rightarrow> jsstring" where
  "expand [] caps m = []"
| "expand (Txt t # ps) caps m = t @ expand ps caps m"
| "expand (Ref n # ps) caps m =
     (if 0 < n \<and> n \<le> length caps then caps ! (n - 1) else []) @ expand ps caps m"
| "expand (Whole # ps) caps m = m @ expand ps caps m"

text \<open>
  \<open>String.prototype.replace\<close> with a \<open>g\<close> expression: the subject is scanned from the
  left; at each position the expression is tried, a match is replaced and the scan goes
  on behind it (one code unit further after an empty match), a code unit where nothing
  matches is copied.
\<close>

fun replaceAll :: "regex \<Rightarrow> tpart list \<Rightarrow> codeunit option \<Rightarrow> jsstring \<Rightarrow> jsstring" where
  "replaceAll re t prev [] =
     (case matchRegex re prev [] of None \<Rightarrow> [] | Some (caps, n) \<Rightarrow> expand t caps [])"
| "replaceAll re t prev (c # cs) =
     (case matchRegex re prev (c # cs) of
        None \<Rightarrow> c # replaceAll re t (Some c) cs
      | Some (caps, n) \<Rightarrow>
          expand t caps (take n (c # cs)) @
          (if n = 0 then c # replaceAll re t (Some c) cs
           else replaceAll re t (prevAfter prev (c # cs) n) (drop (n - 1) cs)))"

definition replace :: "regex \<Rightarrow> tpart list \<Rightarrow> jsstring \<Rightarrow> jsstring" where
  "replace re t s = replaceAll re t None s"

section \<open>The text normalizer\<close>

text \<open>
  \<open>cleanText\<close>, step by step. \<open>String.prototype.normalize('NFC')\<close> needs the Unicode
  composition tables, which are no part of the repository: it is the parameter \<open>nfc\<close>.
  The two character classes of the quote steps hold the ASCII apostrophe and the ASCII
  double quote only, as the source file has them; the three sequences of the next steps
  are U+00E2 U+20AC followed by U+00A6, U+201D and U+201C.
\<close>

text \<open>\<open>/['']/g\<close> by \<open>'\<close>, and \<open>/[""]/g\<close> by \<open>"\<close>\<close>

definition fixApostrophes :: "jsstring \<Rightarrow> jsstring" where
  "fixApostrophes = replace [[cls (\<lambda>c. c = 39)]] [Txt [39]]"

definition fixQuotes :: "jsstring \<Rightarrow> jsstring" where
  "fixQuotes = replace [[cls (\<lambda>c. c = 34)]] [Txt [34]]"

text \<open>The three sequences, by \<open>...\<close>, \<open>--\<close> and \<open>-\<close>\<close>

definition fixEllipsis :: "jsstring \<Rightarrow> jsstring" where
  "fixEllipsis = replace [[lit 226, lit 8364, lit 166]] [Txt (ustr ''...'')]"

definition fixEmDash :: "jsstring \<Rightarrow> jsstring" where
  "fixEmDash = replace [[lit 226, lit 8364, lit 8221]] [Txt (ustr ''--'')]"

definition fixEnDash :: "jsstring \<Rightarrow> jsstring" where
  "fixEnDash = replace [[lit 226, lit 8364, lit 8220]] [Txt (ustr ''-'')]"

text \<open>\<open>/^\s*\d+\s*$/gm\<close>\<close>

definition removePageNumbers :: "jsstring \<Rightarrow> jsstring" where
  "removePageNumbers = replace [[Bol, many0 isSpace, many1 isDigit, many0 isSpace, Eol]] []"

text \<open>\<open>/(\w+)-\s*\n\s*(\w+)/g\<close> by \<open>$1$2\<close>\<close>

definition fixHyphenation :: "jsstring \<Rightarrow> jsstring" where
  "fixHyphenation =
     replace [[capMany1 isWord, lit 45, many0 isSpace, lit 10, many0 isSpace, capMany1 isWord]]
       [Ref 1, Ref 2]"

text \<open>\<open>/[^\S\n]+/g\<close> by one space\<close>

definition collapseSpaces :: "jsstring \<Rightarrow> jsstring" where
  "collapseSpaces = replace [[many1 isSpaceNotLF]] [Txt [32]]"

text \<open>\<open>/\n{3,}/g\<close> by two line feeds\<close>

definition collapseLineBreaks :: "jsstring \<Rightarrow> jsstring" where
  "collapseLineBreaks = replace [[manyN 3 (\<lambda>c. c = 10)]] [Txt [10, 10]]"

text \<open>\<open>/^[ \t]+|[ \t]+$/gm\<close>\<close>

definition trimLines :: "jsstring \<Rightarrow> jsstring" where
  "trimLines = replace [[Bol, many1 isBlank], [many1 isBlank, Eol]] []"

text \<open>\<open>/\[\d+\]/g\<close>\<close>

definition removeCitations :: "jsstring \<Rightarrow> jsstring" where
  "removeCitations = replace [[lit 91, many1 isDigit, lit 93]] []"

text \<open>\<open>/\s+([.,!?;:])/g\<close> by \<open>$1\<close>\<close>

definition removeSpaceBeforePunct :: "jsstring \<Rightarrow> jsstring" where
  "removeSpaceBeforePunct = replace [[many1 isSpace, capCls isPunct]] [Ref 1]"

text \<open>\<open>/([.,!?;:])\s*([.,!?;:])/g\<close> by \<open>$1 $2\<close>\<close>

definition spacePunct :: "jsstring \<Rightarrow> jsstring" where
  "spacePunct =
     replace [[capCls isPunct, many0 isSpace, capCls isPunct]] [Ref 1, Txt [32], Ref 2]"

text \<open>\<open>/https?:\/\/[^\s]+/g\<close>\<close>

definition removeUrls :: "jsstring \<Rightarrow> jsstring" where
  "removeUrls =
     replace [[lit 104, lit 116, lit 116, lit 112, optional (\<lambda>c. c = 115), lit 58, lit 47, lit 47,
               many1 isNonSpace]] []"

text \<open>\<open>/[\w.-]+@[\w.-]+\.\w+/g\<close>\<close>

definition removeEmails :: "jsstring \<Rightarrow> jsstring" where
  "removeEmails =
     replace [[many1 isMailChar, lit 64, many1 isMailChar, lit 46, many1 isWord]] []"

definition cleanSteps :: "jsstring \<Rightarrow> jsstring" where
  "cleanSteps normalized =
     (let cleaned = fixApostrophes normalized;
          cleaned = fixQuotes cleaned;
          cleaned = fixEllipsis cleaned;
          cleaned = fixEmDash cleaned;
          cleaned = fixEnDash cleaned;
          cleaned = removePageNumbers cleaned;
          cleaned = fixHyphenation cleaned;
          cleaned = collapseSpaces cleaned;
          cleaned = collapseLineBreaks cleaned;
          cleaned = trimLines cleaned;
          cleaned = removeCitations cleaned;
          cleaned = removeSpaceBeforePunct cleaned;
          cleaned = spacePunct cleaned;
          cleaned = removeUrls cleaned;
          cleaned = removeEmails cleaned
      in trim cleaned)"

text \<open>
  \<open>if (!text || typeof text !== 'string') return ''\<close>: among the strings only the empty
  one is falsy.
\<close>

fun cleanText :: "(jsstring \<Rightarrow> jsstring) \<Rightarrow> jsval \<Rightarrow> jsstring" where
  "cleanText nfc (JSString text) = (if text = [] then [] else cleanSteps (nfc text))"
| "cleanText nfc v = []"

section \<open>The record builder\<close>

text \<open>
  The document record, as the object literal of \<open>createDocumentStructure\<close> builds it.
  A property that is \<open>null\<close> or a string is an option; \<open>weighting\<close> is the result of
  \<open>parseInt\<close>, \<open>None\<close> standing for \<open>NaN\<close>.
\<close>

record attribution =
  author :: jsstring
  title :: jsstring
  publisher :: "jsstring option"
  isbn :: "jsstring option"
  publication_date :: "jsstring option"
  source_url :: "jsstring option"
  content_type :: jsstring

record content_metadata =
  language :: jsstring
  topic_category :: "jsstring list"
  genre :: "jsstring option"
  chapter_section :: "jsstring option"
  page_numbers :: "jsstring option"

record opt_out_status =
  has_opted_out :: bool
  opt_out_mechanism :: jsstring
  last_checked :: jsstring

record copyright_compliance =
  license_status :: jsstring
  fair_use_assessment :: jsstring
  opt_out_status :: opt_out_status
  compliance_date :: jsstring

record lineage_entry =
  step :: jsstring
  timestamp :: jsstring
  tool_used :: jsstring

record provenance =
  acquisition_date :: jsstring
  acquisition_method :: jsstring
  original_publication_date :: jsstring
  data_lineage :: "lineage_entry list"

record training_metadata =
  token_count :: int
  character_count :: int
  processing_status :: jsstring
  weighting :: "int option"

record ai_act_compliance =
  summary_included :: bool
  transparency_level :: jsstring
  documented_for_authorities :: bool

record document =
  document_id :: jsstring
  content_text :: jsstring
  attribution :: attribution
  content_metadata :: content_metadata
  copyright_compliance :: copyright_compliance
  provenance :: provenance
  training_metadata :: training_metadata
  ai_act_compliance :: ai_act_compliance
  created_at :: jsstring
  updated_at :: jsstring
  version :: int

text \<open>The \<open>value\<close> of each form element, named after the element's id.\<close>

record form =
  content_title_value :: jsstring
  content_author_value :: jsstring
  content_type_value :: jsstring
  content_language_value :: jsstring
  content_publisher_value :: jsstring
  content_isbn_value :: jsstring
  content_genre_value :: jsstring
  content_chapter_value :: jsstring
  content_url_value :: jsstring
  training_weight_value :: jsstring
  content_text_value :: jsstring

text \<open>
  What the builder reads from its environment: the decimal digits of \<open>Date.now()\<close>,
  the string \<open>Math.random().toString(36)\<close> and \<open>new Date().toISOString()\<close>.
\<close>

record clock =
  dateNow :: jsstring
  randomBase36 :: jsstring
  isoString :: jsstring

text \<open>
  \<open>parseInt\<close> with no radix: leading white space is skipped, a sign is read, a \<open>0x\<close> or
  \<open>0X\<close> prefix selects radix 16, and the longest run of digits is the value; \<open>NaN\<close>
  when there is no digit. The value is the exact integer. The number of the code is
  this integer as long as its magnitude is at most \<open>2^53\<close>; beyond, it is rounded to
  double precision, and it is \<open>Infinity\<close> from about 310 digits on. No property below
  is about a weight of that size.
\<close>

definition digitValue :: "codeunit \<Rightarrow> nat" where
  "digitValue c =
     (if 48 \<le> c \<and> c \<le> 57 then c - 48
      else if 97 \<le> c \<and> c \<le> 122 then c - 87
      else if 65 \<le> c \<and> c \<le> 90 then c - 55
      else 36)"

definition parseInt :: "jsstring \<Rightarrow> int option" where
  "parseInt str =
     (let s = dropWhile isSpace str;
          negative = (take 1 s = [45]);
          s1 = (if take 1 s = [43] \<or> take 1 s = [45] then drop 1 s else s);
          hex = (take 2 s1 = [48, 120] \<or> take 2 s1 = [48, 88]);
          radix = (if hex then 16 else 10);
          s2 = (if hex then drop 2 s1 else s1);
          z = takeWhile (\<lambda>c. digitValue c < radix) s2;
          n = foldl (\<lambda>a c. a * radix + digitValue c) 0 z
      in if z = [] then None else Some (if negative then - int n else int n))"

text \<open>\<open>x || null\<close> on a string: the empty string is falsy.\<close>

definition orNull :: "jsstring \<Rightarrow> jsstring option" where
  "orNull x = (if x = [] then None else Some x)"

text \<open>\<open>validateForm\<close>: the status message apart, its result.\<close>

definition validateForm :: "form \<Rightarrow> bool" where
  "validateForm f =
     (if trim (content_title_value f) = [] then False
      else if trim (content_author_value f) = [] then False
      else if content_type_value f = [] then False
      else if trim (content_text_value f) = [] then False
      else True)"

text \<open>
  The record both builders return, given the text they settled on and the wording of the
  lineage step: the two object literals differ in nothing else.
\<close>

definition documentLiteral :: "clock \<Rightarrow> form \<Rightarrow> jsstring \<Rightarrow> jsstring \<Rightarrow> document" where
  "documentLiteral k f contentText lineageStep =
     (let title = trim (content_title_value f);
          author = trim (content_author_value f);
          contentType = content_type_value f;
          language = content_language_value f;
          publisher = trim (content_publisher_value f);
          isbn = trim (content_isbn_value f);
          genre = trim (content_genre_value f);
          chapter = trim (content_chapter_value f);
          sourceUrl = trim (content_url_value f);
          weight = parseInt (training_weight_value f);
          documentId = ustr ''text_content_'' @ dateNow k @ [95] @ take 9 (drop 2 (randomBase36 k));
          currentDate = isoString k
      in \<lparr> document_id = documentId,
           content_text = contentText,
           attribution = \<lparr> author = author, title = title, publisher = orNull publisher,
             isbn = orNull isbn, publication_date = None, source_url = orNull sourceUrl,
             content_type = contentType \<rparr>,
           content_metadata = \<lparr> language = language, topic_category = [ustr ''other''],
             genre = orNull genre, chapter_section = orNull chapter, page_numbers = None \<rparr>,
           copyright_compliance = \<lparr> license_status = ustr ''user_provided'',
             fair_use_assessment = ustr ''not_assessed'',
             opt_out_status = \<lparr> has_opted_out = False,
               opt_out_mechanism = ustr ''not_applicable'', last_checked = currentDate \<rparr>,
             compliance_date = currentDate \<rparr>,
           provenance = \<lparr> acquisition_date = currentDate,
             acquisition_method = ustr ''manual_input'',
             original_publication_date = currentDate,
             data_lineage = [\<lparr> step = lineageStep, timestamp = currentDate,
               tool_used = ustr ''text-corpus-tool v1.0'' \<rparr>] \<rparr>,
           training_metadata = \<lparr>
             token_count = \<lceil>real (length contentText) / 4\<rceil>,
             character_count = int (length contentText),
             processing_status = ustr ''ready_for_training'',
             weighting = weight \<rparr>,
           ai_act_compliance = \<lparr> summary_included = True,
             transparency_level = ustr ''full_disclosure'',
             documented_for_authorities = True \<rparr>,
           created_at = currentDate,
           updated_at = currentDate,
           version = 1 \<rparr>)"

text \<open>
  \<open>createDocumentStructure\<close> of the script with the text cleaning
  (\<open>src/unnamed/part_000\<close>): the trimmed text of the form goes through \<open>cleanText\<close>.
\<close>

definition createDocumentStructure :: "(jsstring \<Rightarrow> jsstring) \<Rightarrow> clock \<Rightarrow> form \<Rightarrow> document" where
  "createDocumentStructure nfc k f =
     (let rawContentText = trim (content_text_value f);
          contentText = cleanText nfc (JSString rawContentText)
      in documentLiteral k f contentText
           (ustr ''Manual text input via corpus tool (auto-cleaned)''))"

text \<open>
  \<open>createDocumentStructure\<close> of \<open>src/public/script.js\<close>, the script the server hands out
  from its \<open>public\<close> directory: the trimmed text of the form is the content.
\<close>

definition createDocumentStructure_public :: "clock \<Rightarrow> form \<Rightarrow> document" where
  "createDocumentStructure_public k f =
     (let contentText = trim (content_text_value f)
      in documentLiteral k f contentText (ustr ''Manual text input via corpus tool''))"

section \<open>The document store\<close>

text \<open>
  The collection \<open>text-corpus\<close> of the database the service is conn to: the stored
  documents in their natural order, each under the key the store gave it (\<open>_id\<close>, here a
  counter). The operations below are those of the driver the service calls.
\<close>

record collection =
  nextKey :: nat
  stored :: "(nat \<times> document) list"

datatype error =
    DuplicateIdError
      \<comment> \<open>\<open>Error('Document with this ID already exists in corpus')\<close>\<close>
  | DuplicateContentError
      \<comment> \<open>\<open>Error('Similar content already exists in corpus')\<close>\<close>
  | TypeError
      \<comment> \<open>\<open>db.collection\<close> where \<open>db\<close> is \<open>null\<close>\<close>
  | ConnectionError
      \<comment> \<open>the rejection of \<open>client.connect()\<close>, which \<open>connect\<close> passes on\<close>
  | UnsupportedRegex
      \<comment> \<open>a \<open>$regex\<close> outside the patterns modelled below\<close>
  | ConflictingUpdateOperators jsstring
      \<comment> \<open>the store's write error 40: two update operators name the same path\<close>
  | UnsupportedUpdate jsstring
      \<comment> \<open>an update of a path or to a value the record type cannot hold\<close>

subsection \<open>Strings on their way to the store\<close>

text \<open>
  The driver sends every string as UTF-8, and the store holds and compares strings code
  point by code point. Two code units that form a surrogate pair are one code point; a
  surrogate that is not part of a pair cannot be encoded, and the encoder puts U+FFFD in
  its place. \<open>scalars\<close> gives the code points the store receives for a string, and
  \<open>toWellFormed\<close> the string a reader gets back, which is the string sent with U+FFFD for
  every unpaired surrogate.
\<close>

definition isHighSurrogate :: "codeunit \<Rightarrow> bool" where
  "isHighSurrogate c \<longleftrightarrow> 55296 \<le> c \<and> c \<le> 56319"

definition isLowSurrogate :: "codeunit \<Rightarrow> bool" where
  "isLowSurrogate c \<longleftrightarrow> 56320 \<le> c \<and> c \<le> 57343"

definition isSurrogate :: "codeunit \<Rightarrow> bool" where
  "isSurrogate c \<longleftrightarrow> isHighSurrogate c \<or> isLowSurrogate c"

definition unpaired :: "codeunit \<Rightarrow> codeunit" where
  "unpaired c = (if isSurrogate c then 65533 else c)"

definition codePoint :: "codeunit \<Rightarrow> codeunit \<Rightarrow> nat" where
  "codePoint hi lo = 65536 + (hi - 55296) * 1024 + (lo - 56320)"

fun scalars :: "jsstring \<Rightarrow> nat list" where
  "scalars [] = []"
| "scalars [c] = [unpaired c]"
| "scalars (c # d # cs) =
     (if isHighSurrogate c \<and> isLowSurrogate d then codePoint c d # scalars cs
      else unpaired c # scalars (d # cs))"

fun toWellFormed :: "jsstring \<Rightarrow> jsstring" where
  "toWellFormed [] = []"
| "toWellFormed [c] = [unpaired c]"
| "toWellFormed (c # d # cs) =
     (if isHighSurrogate c \<and> isLowSurrogate d then c # d # toWellFormed cs
      else unpaired c # toWellFormed (d # cs))"

text \<open>The document the store holds after it was sent: each of its strings as sent.\<close>

definition wireDocument :: "document \<Rightarrow> document" where
  "wireDocument d =
     \<lparr> document_id = toWellFormed (document_id d),
       content_text = toWellFormed (content_text d),
       attribution =
         \<lparr> author = toWellFormed (author (attribution d)),
           title = toWellFormed (title (attribution d)),
           publisher = map_option toWellFormed (publisher (attribution d)),
           isbn = map_option toWellFormed (isbn (attribution d)),
           publication_date = map_option toWellFormed (publication_date (attribution d)),
           source_url = map_option toWellFormed (source_url (attribution d)),
           content_type = toWellFormed (content_type (attribution d)) \<rparr>,
       content_metadata =
         \<lparr> language = toWellFormed (language (content_metadata d)),
           topic_category = map toWellFormed (topic_category (content_metadata d)),
           genre = map_option toWellFormed (genre (content_metadata d)),
           chapter_section = map_option toWellFormed (chapter_section (content_metadata d)),
           page_numbers = map_option toWellFormed (page_numbers (content_metadata d)) \<rparr>,
       copyright_compliance =
         \<lparr> license_status = toWellFormed (license_status (copyright_compliance d)),
           fair_use_assessment = toWellFormed (fair_use_assessment (copyright_compliance d)),
           opt_out_status =
             \<lparr> has_opted_out = has_opted_out (opt_out_status (copyright_compliance d)),
               opt_out_mechanism =
                 toWellFormed (opt_out_mechanism (opt_out_status (copyright_compliance d))),
               last_checked =
                 toWellFormed (last_checked (opt_out_status (copyright_compliance d))) \<rparr>,
           compliance_date = toWellFormed (compliance_date (copyright_compliance d)) \<rparr>,
       provenance =
         \<lparr> acquisition_date = toWellFormed (acquisition_date (provenance d)),
           acquisition_method = toWellFormed (acquisition_method (provenance d)),
           original_publication_date = toWellFormed (original_publication_date (provenance d)),
           data_lineage =
             map (\<lambda>l. \<lparr> step = toWellFormed (step l), timestamp = toWellFormed (timestamp l),
                         tool_used = toWellFormed (tool_used l) \<rparr>)
               (data_lineage (provenance d)) \<rparr>,
       training_metadata =
         \<lparr> token_count = token_count (training_metadata d),
           character_count = character_count (training_metadata d),
           processing_status = toWellFormed (processing_status (training_metadata d)),
           weighting = weighting (training_metadata d) \<rparr>,
       ai_act_compliance =
         \<lparr> summary_included = summary_included (ai_act_compliance d),
           transparency_level = toWellFormed (transparency_level (ai_act_compliance d)),
           documented_for_authorities = documented_for_authorities (ai_act_compliance d) \<rparr>,
       created_at = toWellFormed (created_at d),
       updated_at = toWellFormed (updated_at d),
       version = version d \<rparr>"

subsection \<open>Queries\<close>

text \<open>
  A filter is a conjunction of conditions on string-valued paths: equality with a
  string, or \<open>$regex\<close> with a pattern.
\<close>

datatype cond = FieldEq jsstring jsstring | FieldRegex jsstring jsstring

definition stringField :: "jsstring \<Rightarrow> document \<Rightarrow> jsstring option" where
  "stringField path d =
     (if path = ustr ''document_id'' then Some (document_id d)
      else if path = ustr ''content_text'' then Some (content_text d)
      else if path = ustr ''attribution.title'' then Some (title (attribution d))
      else if path = ustr ''attribution.author'' then Some (author (attribution d))
      else if path = ustr ''attribution.content_type'' then Some (content_type (attribution d))
      else if path = ustr ''created_at'' then Some (created_at d)
      else if path = ustr ''updated_at'' then Some (updated_at d)
      else None)"

text \<open>
  The store matches a \<open>$regex\<close> with PCRE, on code points. Outside a character class the
  metacharacters of PCRE are \<open>\ ^ $ . [ | ( ) ? * + {\<close>; a backslash before a character
  that is neither a letter nor a digit makes that character stand for itself; every
  other character stands for itself. \<open>pcreTokens\<close> reads a pattern accordingly; it gives
  up on a backslash before a letter or digit (an escape sequence) and on a backslash
  that ends the pattern.
\<close>

datatype ptoken = PLit nat | PMeta nat

definition pcreMeta :: "nat \<Rightarrow> bool" where
  "pcreMeta c \<longleftrightarrow>
     c = 92 \<or> c = 94 \<or> c = 36 \<or> c = 46 \<or> c = 91 \<or> c = 124 \<or> c = 40 \<or> c = 41 \<or>
     c = 63 \<or> c = 42 \<or> c = 43 \<or> c = 123"

definition isAlnum :: "nat \<Rightarrow> bool" where
  "isAlnum c \<longleftrightarrow> (48 \<le> c \<and> c \<le> 57) \<or> (65 \<le> c \<and> c \<le> 90) \<or> (97 \<le> c \<and> c \<le> 122)"

fun pcreTokens :: "nat list \<Rightarrow> ptoken list option" where
  "pcreTokens [] = Some []"
| "pcreTokens [c] = (if c = 92 then None else Some [if pcreMeta c then PMeta c else PLit c])"
| "pcreTokens (c # d # ds) =
     (if c = 92 then
        (if isAlnum d then None else map_option (Cons (PLit d)) (pcreTokens ds))
      else map_option (Cons (if pcreMeta c then PMeta c else PLit c)) (pcreTokens (d # ds)))"

fun literals :: "ptoken list \<Rightarrow> nat list option" where
  "literals [] = Some []"
| "literals (PLit c # ts) = map_option (Cons c) (literals ts)"
| "literals (PMeta c # ts) = None"

text \<open>
  The patterns modelled are \<open>^\<close> followed by literal characters: such a pattern matches
  the strings that begin with these characters (no option is set, so the match is case
  sensitive and \<open>^\<close> is the start of the string). \<open>anchoredLiteral\<close> gives the characters,
  or \<open>None\<close> for any other pattern.
\<close>

definition anchoredLiteral :: "nat list \<Rightarrow> nat list option" where
  "anchoredLiteral pat =
     (case pcreTokens pat of
        Some (PMeta c # ts) \<Rightarrow> (if c = 94 then literals ts else None)
      | _ \<Rightarrow> None)"

text \<open>
  A condition on a document of the store. The operand of the condition arrives as its
  code points, and so is the string of the document compared.
\<close>

fun condSupported :: "cond \<Rightarrow> bool" where
  "condSupported (FieldEq path v) = True"
| "condSupported (FieldRegex path pat) = (anchoredLiteral (scalars pat) \<noteq> None)"

fun condHolds :: "cond \<Rightarrow> document \<Rightarrow> bool" where
  "condHolds (FieldEq path v) d =
     (case stringField path d of None \<Rightarrow> False | Some x \<Rightarrow> scalars x = scalars v)"
| "condHolds (FieldRegex path pat) d =
     (case anchoredLiteral (scalars pat) of
        None \<Rightarrow> False
      | Some l \<Rightarrow>
          (case stringField path d of None \<Rightarrow> False | Some x \<Rightarrow> prefix l (scalars x)))"

definition matches :: "cond list \<Rightarrow> nat \<times> document \<Rightarrow> bool" where
  "matches q kd = list_all (\<lambda>c. condHolds c (snd kd)) q"

text \<open>\<open>findOne\<close>: the first document of the collection that the filter matches.\<close>

definition findOne :: "cond list \<Rightarrow> collection \<Rightarrow> error + document option" where
  "findOne q coll =
     (if list_all condSupported q then Inr (map_option snd (find (matches q) (stored coll)))
      else Inl UnsupportedRegex)"

text \<open>
  \<open>insertOne\<close>: the document, as it was sent, is appended under a fresh key, which is
  returned.
\<close>

definition insertOne :: "document \<Rightarrow> collection \<Rightarrow> nat \<times> collection" where
  "insertOne d coll =
     (nextKey coll,
      coll\<lparr> nextKey := Suc (nextKey coll),
            stored := stored coll @ [(nextKey coll, wireDocument d)] \<rparr>)"

text \<open>\<open>deleteOne\<close>: the first matching document is removed; the result is \<open>deletedCount\<close>.\<close>

fun removeFirst :: "('a \<Rightarrow> bool) \<Rightarrow> 'a list \<Rightarrow> 'a list" where
  "removeFirst P [] = []"
| "removeFirst P (x # xs) = (if P x then xs else x # removeFirst P xs)"

definition deleteOne :: "cond list \<Rightarrow> collection \<Rightarrow> error + (nat \<times> collection)" where
  "deleteOne q coll =
     (if list_all condSupported q then
        Inr (if list_ex (matches q) (stored coll) then 1 else 0,
             coll\<lparr> stored := removeFirst (matches q) (stored coll) \<rparr>)
      else Inl UnsupportedRegex)"

subsection \<open>Updates\<close>

text \<open>
  An update document with the operators \<open>$set\<close> and \<open>$inc\<close>, each a list of paths with
  their operands. The store first reads the whole update: two operators that name the
  same path, or a path and one below it, are a conflict, and the write fails before
  any document is looked at. Otherwise the first matching document is changed. The
  result is \<open>matchedCount\<close>.
\<close>

record update =
  set_op :: "(jsstring \<times> jsval) list"
  inc_op :: "(jsstring \<times> int) list"

definition pathConflict :: "jsstring \<Rightarrow> jsstring \<Rightarrow> bool" where
  "pathConflict p q \<longleftrightarrow> p = q \<or> prefix (p @ [46]) q \<or> prefix (q @ [46]) p"

definition conflictingPath :: "update \<Rightarrow> jsstring option" where
  "conflictingPath u =
     find (\<lambda>p. list_ex (pathConflict p) (map fst (set_op u))) (map fst (inc_op u))"

fun applySet :: "jsstring \<times> jsval \<Rightarrow> document \<Rightarrow> error + document" where
  "applySet (path, v) d =
     (case v of
        JSString x \<Rightarrow>
          (if path = ustr ''document_id'' then Inr (d\<lparr> document_id := toWellFormed x \<rparr>)
           else if path = ustr ''content_text'' then Inr (d\<lparr> content_text := toWellFormed x \<rparr>)
           else if path = ustr ''created_at'' then Inr (d\<lparr> created_at := toWellFormed x \<rparr>)
           else if path = ustr ''updated_at'' then Inr (d\<lparr> updated_at := toWellFormed x \<rparr>)
           else Inl (UnsupportedUpdate path))
      | JSNumber n \<Rightarrow>
          (if path = ustr ''version'' then Inr (d\<lparr> version := n \<rparr>)
           else Inl (UnsupportedUpdate path))
      | _ \<Rightarrow> Inl (UnsupportedUpdate path))"

fun applyInc :: "jsstring \<times> int \<Rightarrow> document \<Rightarrow> error + document" where
  "applyInc (path, n) d =
     (if path = ustr ''version'' then Inr (d\<lparr> version := version d + n \<rparr>)
      else Inl (UnsupportedUpdate path))"

fun applyAll :: "('a \<Rightarrow> document \<Rightarrow> error + document) \<Rightarrow> 'a list \<Rightarrow> document \<Rightarrow> error + document" where
  "applyAll f [] d = Inr d"
| "applyAll f (x # xs) d = (case f x d of Inl e \<Rightarrow> Inl e | Inr d' \<Rightarrow> applyAll f xs d')"

definition applyUpdate :: "update \<Rightarrow> document \<Rightarrow> error + document" where
  "applyUpdate u d =
     (case applyAll applySet (set_op u) d of
        Inl e \<Rightarrow> Inl e
      | Inr d' \<Rightarrow> applyAll applyInc (inc_op u) d')"

fun updateFirst :: "cond list \<Rightarrow> update \<Rightarrow> (nat \<times> document) list \<Rightarrow> error + (nat \<times> (nat \<times> document) list)" where
  "updateFirst q u [] = Inr (0, [])"
| "updateFirst q u (kd # kds) =
     (if matches q kd then
        (case applyUpdate u (snd kd) of
           Inl e \<Rightarrow> Inl e
         | Inr d' \<Rightarrow> Inr (1, (fst kd, d') # kds))
      else
        (case updateFirst q u kds of
           Inl e \<Rightarrow> Inl e
         | Inr (n, kds') \<Rightarrow> Inr (n, kd # kds')))"

definition updateOne :: "cond list \<Rightarrow> update \<Rightarrow> collection \<Rightarrow> error + (nat \<times> collection)" where
  "updateOne q u coll =
     (case conflictingPath u of
        Some p \<Rightarrow> Inl (ConflictingUpdateOperators p)
      | None \<Rightarrow>
          (if list_all condSupported q then
             (case updateFirst q u (stored coll) of
                Inl e \<Rightarrow> Inl e
              | Inr (n, kds) \<Rightarrow> Inr (n, coll\<lparr> stored := kds \<rparr>))
           else Inl UnsupportedRegex))"

subsection \<open>Aggregation\<close>

text \<open>
  The \<open>$group\<close> stage with the constant key \<open>null\<close>: no group, hence no result, on an empty
  collection, and one group holding every document otherwise. \<open>$sum\<close> adds the numeric
  values and \<open>$avg\<close> averages them, both skipping a value that is no number; \<open>$avg\<close> is
  \<open>null\<close> when there is none. \<open>$addToSet\<close> collects the distinct values, in an order the
  store does not fix. The key \<open>_id\<close> of the group, always \<open>null\<close>, is left out of the
  result.

  The counts and weightings are integers and their sums are exact. The average is a
  number of double precision, the store's quotient of the sum of the numeric values by
  their number: this division is the parameter \<open>quotientOf\<close>, and a number of double
  precision is modelled as the real number it stands for.
\<close>

record stats =
  totalDocuments :: int
  totalCharacters :: int
  totalTokens :: int
  averageWeight :: "real option"
  contentTypes :: "jsstring list"

fun numericValues :: "int option list \<Rightarrow> int list" where
  "numericValues [] = []"
| "numericValues (None # xs) = numericValues xs"
| "numericValues (Some x # xs) = x # numericValues xs"

definition avg :: "(int \<Rightarrow> nat \<Rightarrow> real) \<Rightarrow> int option list \<Rightarrow> real option" where
  "avg quotientOf xs =
     (let ns = numericValues xs
      in if ns = [] then None else Some (quotientOf (sum_list ns) (length ns)))"

definition groupAll :: "(int \<Rightarrow> nat \<Rightarrow> real) \<Rightarrow> collection \<Rightarrow> stats list" where
  "groupAll quotientOf coll =
     (let ds = map snd (stored coll)
      in if ds = [] then []
         else [\<lparr> totalDocuments = int (length ds),
                 totalCharacters = sum_list (map (\<lambda>d. character_count (training_metadata d)) ds),
                 totalTokens = sum_list (map (\<lambda>d. token_count (training_metadata d)) ds),
                 averageWeight = avg quotientOf (map (\<lambda>d. weighting (training_metadata d)) ds),
                 contentTypes = remdups (map (\<lambda>d. content_type (attribution d)) ds) \<rparr>])"

section \<open>The store gateway\<close>

text \<open>
  The methods of \<open>MongoService\<close>. Each begins with \<open>const db = await this.connect()\<close> and
  \<open>const collection = db.collection('text-corpus')\<close>. What the call of \<open>connect\<close> gave
  is the first argument of the method here: \<open>connect\<close> has resolved to the value of
  \<open>this.db\<close>, a handle or \<open>null\<close>, or it has thrown. On \<open>null\<close>, \<open>db.collection\<close> throws
  a \<open>TypeError\<close>, and an exception of \<open>connect\<close> is the method's own; in both cases the
  store is not reached. Each method takes the collection and returns its result, an
  error for a thrown exception, with the collection after the call.
\<close>

datatype connection = Resolved "nat option" | Threw

text \<open>
  \<open>.replace(/[.*+?^${}()|[\]\\]/g, '\\$&')\<close>: a backslash before every pattern-special
  character.
\<close>

definition regexSpecial :: "codeunit \<Rightarrow> bool" where
  "regexSpecial c \<longleftrightarrow>
     c = 46 \<or> c = 42 \<or> c = 43 \<or> c = 63 \<or> c = 94 \<or> c = 36 \<or> c = 123 \<or> c = 125 \<or>
     c = 40 \<or> c = 41 \<or> c = 124 \<or> c = 91 \<or> c = 93 \<or> c = 92"

definition escapeRegex :: "jsstring \<Rightarrow> jsstring" where
  "escapeRegex = replace [[cls regexSpecial]] [Txt [92], Whole]"

definition contentSignature :: "document \<Rightarrow> cond list" where
  "contentSignature d =
     [FieldEq (ustr ''attribution.title'') (title (attribution d)),
      FieldEq (ustr ''attribution.author'') (author (attribution d)),
      FieldRegex (ustr ''content_text'') (94 # escapeRegex (take 100 (content_text d)))]"

definition insertDocument :: "connection \<Rightarrow> document \<Rightarrow> collection \<Rightarrow> (error + nat) \<times> collection" where
  "insertDocument conn d coll =
     (case conn of
        Threw \<Rightarrow> (Inl ConnectionError, coll)
      | Resolved None \<Rightarrow> (Inl TypeError, coll)
      | Resolved (Some db) \<Rightarrow>
          (case findOne [FieldEq (ustr ''document_id'') (document_id d)] coll of
             Inl e \<Rightarrow> (Inl e, coll)
           | Inr (Some existing) \<Rightarrow> (Inl DuplicateIdError, coll)
           | Inr None \<Rightarrow>
               (case findOne (contentSignature d) coll of
                  Inl e \<Rightarrow> (Inl e, coll)
                | Inr (Some duplicateContent) \<Rightarrow> (Inl DuplicateContentError, coll)
                | Inr None \<Rightarrow> (case insertOne d coll of (k, coll') \<Rightarrow> (Inr k, coll')))))"

definition getDocumentById :: "connection \<Rightarrow> jsstring \<Rightarrow> collection \<Rightarrow> error + document option" where
  "getDocumentById conn documentId coll =
     (case conn of
        Threw \<Rightarrow> Inl ConnectionError
      | Resolved None \<Rightarrow> Inl TypeError
      | Resolved (Some db) \<Rightarrow> findOne [FieldEq (ustr ''document_id'') documentId] coll)"

text \<open>
  \<open>updateDocument\<close> assigns two properties of the object it is given, once it has the
  collection, so the object after the call is part of the result: first the caller's
  \<open>updateData\<close> as the method leaves it, then the result of \<open>updateOne\<close>, then the
  collection. \<open>now\<close> is \<open>new Date().toISOString()\<close>. An assignment to a property keeps its
  place among the properties, or adds it at the end. The \<open>updateOne\<close> of the collection
  is an argument, \<open>collection_updateOne\<close>, so that the request the method sends can be
  read off whatever the store answers; the store of this model is \<open>updateOne\<close>.
\<close>

definition versionOperand :: jsval where
  "versionOperand = JSObject [(ustr ''$inc'', JSObject [(ustr ''version'', JSNumber 1)])]"

definition updateDocument ::
  "(cond list \<Rightarrow> update \<Rightarrow> collection \<Rightarrow> error + (nat \<times> collection)) \<Rightarrow> connection \<Rightarrow>
   jsstring \<Rightarrow> jsstring \<Rightarrow> (jsstring \<times> jsval) list \<Rightarrow> collection \<Rightarrow>
   (jsstring \<times> jsval) list \<times> (error + nat) \<times> collection" where
  "updateDocument collection_updateOne conn now documentId updateData coll =
     (case conn of
        Threw \<Rightarrow> (updateData, Inl ConnectionError, coll)
      | Resolved None \<Rightarrow> (updateData, Inl TypeError, coll)
      | Resolved (Some db) \<Rightarrow>
          (let updateData1 = AList.update (ustr ''updated_at'') (JSString now) updateData;
               updateData2 = AList.update (ustr ''version'') versionOperand updateData1
           in case collection_updateOne [FieldEq (ustr ''document_id'') documentId]
                     \<lparr> set_op = updateData2, inc_op = [(ustr ''version'', 1)] \<rparr> coll of
                Inl e \<Rightarrow> (updateData2, Inl e, coll)
              | Inr (n, coll') \<Rightarrow> (updateData2, Inr n, coll')))"

definition deleteDocument :: "connection \<Rightarrow> jsstring \<Rightarrow> collection \<Rightarrow> (error + nat) \<times> collection" where
  "deleteDocument conn documentId coll =
     (case conn of
        Threw \<Rightarrow> (Inl ConnectionError, coll)
      | Resolved None \<Rightarrow> (Inl TypeError, coll)
      | Resolved (Some db) \<Rightarrow>
          (case deleteOne [FieldEq (ustr ''document_id'') documentId] coll of
             Inl e \<Rightarrow> (Inl e, coll)
           | Inr (n, coll') \<Rightarrow> (Inr n, coll')))"

text \<open>\<open>stats[0] || { ... }\<close>: the group when there is one, the literal otherwise.\<close>

definition getCollectionStats :: "(int \<Rightarrow> nat \<Rightarrow> real) \<Rightarrow> connection \<Rightarrow> collection \<Rightarrow> error + stats" where
  "getCollectionStats quotientOf conn coll =
     (case conn of
        Threw \<Rightarrow> Inl ConnectionError
      | Resolved None \<Rightarrow> Inl TypeError
      | Resolved (Some db) \<Rightarrow>
          (case groupAll quotientOf coll of
             s # rest \<Rightarrow> Inr s
           | [] \<Rightarrow> Inr \<lparr> totalDocuments = 0, totalCharacters = 0, totalTokens = 0,
                         averageWeight = Some 0, contentTypes = [] \<rparr>))"

section \<open>Connecting\<close>

text \<open>
  \<open>connect\<close> is an asynchronous function with one \<open>await\<close>. A call runs without
  interruption up to the \<open>await\<close> or to its \<open>return\<close>; what other calls do in between
  happens while it is suspended. The service holds \<open>client\<close> and \<open>db\<close>, both \<open>null\<close>
  at first; a client is named by its number of creation, and the handle
  \<open>client.db('corpora')\<close> by the client it belongs to.

  A call is \<open>NotStarted\<close>, then either \<open>Returned\<close> at once or \<open>Awaiting\<close> the
  connection of the client it made; from there it has \<open>Returned\<close> with the value of
  \<open>this.db\<close>, or is \<open>Rejected\<close> when the connection failed.
\<close>

datatype call = NotStarted | Awaiting | Returned "nat option" | Rejected

record world =
  client :: "nat option"
  db :: "nat option"
  clientsCreated :: nat
  calls :: "call list"

datatype event =
    Enter nat
      \<comment> \<open>call \<open>i\<close> starts and runs to its \<open>await\<close> or \<open>return\<close>\<close>
  | Connected nat
      \<comment> \<open>the connection call \<open>i\<close> awaits is established, and call \<open>i\<close> runs to its end\<close>
  | Failed nat
      \<comment> \<open>the connection call \<open>i\<close> awaits fails\<close>

definition callState :: "world \<Rightarrow> nat \<Rightarrow> call option" where
  "callState w i = (if i < length (calls w) then Some (calls w ! i) else None)"

fun fire :: "event \<Rightarrow> world \<Rightarrow> world" where
  "fire (Enter i) w =
     (if callState w i = Some NotStarted then
        (case client w of
           None \<Rightarrow> w\<lparr> client := Some (clientsCreated w),
                      clientsCreated := Suc (clientsCreated w),
                      calls := (calls w)[i := Awaiting] \<rparr>
         | Some c \<Rightarrow> w\<lparr> calls := (calls w)[i := Returned (db w)] \<rparr>)
      else w)"
| "fire (Connected i) w =
     (if callState w i = Some Awaiting then
        (case client w of
           None \<Rightarrow> w\<lparr> calls := (calls w)[i := Rejected] \<rparr>
         | Some c \<Rightarrow> w\<lparr> db := Some c, calls := (calls w)[i := Returned (Some c)] \<rparr>)
      else w)"
| "fire (Failed i) w =
     (if callState w i = Some Awaiting then w\<lparr> calls := (calls w)[i := Rejected] \<rparr> else w)"

fun run :: "event list \<Rightarrow> world \<Rightarrow> world" where
  "run [] w = w"
| "run (e # es) w = run es (fire e w)"

text \<open>A new service, with \<open>n\<close> calls of \<open>connect\<close> still to come.\<close>

definition newService :: "nat \<Rightarrow> world" where
  "newService n = \<lparr> client = None, db = None, clientsCreated = 0, calls = replicate n NotStarted \<rparr>"

text \<open>
  What a method that awaits a call of \<open>connect\<close> gets from it, once the call is over.
\<close>

definition outcome :: "call \<Rightarrow> connection option" where
  "outcome c =
     (case c of
        Returned v \<Rightarrow> Some (Resolved v)
      | Rejected \<Rightarrow> Some Threw
      | _ \<Rightarrow> None)"

section \<open>Sample data\<close>

definition sampleClock :: clock where
  "sampleClock = \<lparr> dateNow = ustr ''1700000000000'', randomBase36 = ustr ''0.k3j9x2m1qz8'',
     isoString = ustr ''2023-11-14T22:13:20.000Z'' \<rparr>"

definition laterClock :: clock where
  "laterClock = \<lparr> dateNow = ustr ''1700000360000'', randomBase36 = ustr ''0.8fw2ab3cd9e'',
     isoString = ustr ''2023-11-14T22:19:20.000Z'' \<rparr>"

definition sampleForm :: form where
  "sampleForm = \<lparr> content_title_value = ustr ''Walden'', content_author_value = ustr ''Thoreau'',
     content_type_value = ustr ''book'', content_language_value = ustr ''en-US'',
     content_publisher_value = [], content_isbn_value = [], content_genre_value = [],
     content_chapter_value = [], content_url_value = [], training_weight_value = ustr ''2'',
     content_text_value = ustr ''Hello   world'' \<rparr>"

definition emptyCollection :: collection where
  "emptyCollection = \<lparr> nextKey = 0, stored = [] \<rparr>"

definition sampleDocument :: document where
  "sampleDocument = createDocumentStructure_public sampleClock sampleForm"

definition laterDocument :: document where
  "laterDocument = createDocumentStructure_public laterClock sampleForm"

definition sampleCollection :: collection where
  "sampleCollection = snd (insertDocument (Resolved (Some 0)) sampleDocument emptyCollection)"

definition sampleText :: jsstring where
  "sampleText =
     ustr ''Chapter 12: the well-known rules\<newline>\<newline>We said, again and again: 3 is enough.\<newline>Done''"

text \<open>
  A text of 106 code units whose code units 100 and 101 are the surrogate pair of
  U+1F600: 99 times the letter \<open>a\<close>, the pair, and \<open> tail\<close>. The same form is submitted
  twice, at the two times above.
\<close>

definition astralText :: jsstring where
  "astralText = replicate 99 97 @ [55357, 56832] @ ustr '' tail''"

definition astralForm :: form where
  "astralForm = sampleForm\<lparr> content_text_value := astralText \<rparr>"

definition astralDocument :: document where
  "astralDocument = createDocumentStructure_public sampleClock astralForm"

definition astralLater :: document where
  "astralLater = createDocumentStructure_public laterClock astralForm"

definition astralCollection :: collection where
  "astralCollection = snd (insertDocument (Resolved (Some 0)) astralDocument emptyCollection)"

text \<open>
  A text of 105 code units with pattern-special characters among its first 100: 34
  times \<open>a.*\<close>, and \<open>(b)\<close>.
\<close>

definition specialText :: jsstring where
  "specialText = concat (replicate 34 (ustr ''a.*'')) @ ustr ''(b)''"

definition specialForm :: form where
  "specialForm = sampleForm\<lparr> content_text_value := specialText \<rparr>"

definition specialDocument :: document where
  "specialDocument = createDocumentStructure_public sampleClock specialForm"

definition specialLater :: document where
  "specialLater = createDocumentStructure_public laterClock specialForm"

definition specialCollection :: collection where
  "specialCollection = snd (insertDocument (Resolved (Some 0)) specialDocument emptyCollection)"

text \<open>
  A collection of two documents, the second from a form whose weight field was left
  empty, so that its \<open>weighting\<close> is \<open>null\<close>.
\<close>

definition unweightedDocument :: document where
  "unweightedDocument =
     createDocumentStructure_public laterClock (sampleForm\<lparr> training_weight_value := [] \<rparr>)"



text \<open>
  A store whose \<open>updateOne\<close> answers that one document matched when the request is the
  given one, and that none did otherwise; it changes nothing.
\<close>

definition expecting ::
  "cond list \<Rightarrow> update \<Rightarrow> cond list \<Rightarrow> update \<Rightarrow> collection \<Rightarrow> error + (nat \<times> collection)" where
  "expecting q u q' u' coll = (if q' = q \<and> u' = u then Inr (1, coll) else Inr (0, coll))"

section \<open>Notions of the properties\<close>

text \<open>
  A stored document with the given \<open>document_id\<close>, as the store compares strings: by
  their code points.
\<close>

definition hasId :: "jsstring \<Rightarrow> nat \<times> document \<Rightarrow> bool" where
  "hasId i kd \<longleftrightarrow> scalars (document_id (snd kd)) = scalars i"

text \<open>
  A stored document that shares title and author with \<open>r\<close> and whose text, in code
  points, begins with the code points sent for the first 100 code units of the text of
  \<open>r\<close>: the content check of the store.
\<close>

definition sameContent :: "document \<Rightarrow> nat \<times> document \<Rightarrow> bool" where
  "sameContent r kd \<longleftrightarrow>
     scalars (title (attribution (snd kd))) = scalars (title (attribution r)) \<and>
     scalars (author (attribution (snd kd))) = scalars (author (attribution r)) \<and>
     prefix (scalars (take 100 (content_text r))) (scalars (content_text (snd kd)))"

text \<open>
  A stored document that has the title and author of \<open>r\<close> and whose text begins with the
  first 100 code units of the text of \<open>r\<close>.
\<close>

definition beginsAlike :: "document \<Rightarrow> nat \<times> document \<Rightarrow> bool" where
  "beginsAlike r kd \<longleftrightarrow>
     title (attribution (snd kd)) = title (attribution r) \<and>
     author (attribution (snd kd)) = author (attribution r) \<and>
     prefix (take 100 (content_text r)) (content_text (snd kd))"

text \<open>The first 100 code units of the text do not end with a high surrogate.\<close>

definition uncut :: "document \<Rightarrow> bool" where
  "uncut r \<longleftrightarrow>
     take 100 (content_text r) = [] \<or> \<not> isHighSurrogate (last (take 100 (content_text r)))"

text \<open>A character with a backslash before it when it is pattern-special.\<close>

definition escapeChar :: "codeunit \<Rightarrow> jsstring" where
  "escapeChar c = (if regexSpecial c then [92, c] else [c])"

text \<open>
  Already-clean text: lines of words, numbers and punctuation. Its characters are plain
  ones (no white space, punctuation mark \<open>.,!?;:\<close>, slash, \<open>@\<close>, \<open>[\<close> or U+20AC),
  punctuation marks, the space and the line feed. A mark follows neither a space, a
  line feed nor another mark. A space follows a character that is neither space nor
  line feed, and is followed by a plain character. A line feed follows a character that
  is neither a space nor a hyphen, and is followed by a plain character or by one more
  line feed and then a plain character. No line is a number alone. So single spaces
  separate the words, one or two line feeds separate the lines, and the text begins and
  ends with a character that is no white space.
\<close>

definition plainChar :: "codeunit \<Rightarrow> bool" where
  "plainChar c \<longleftrightarrow>
     \<not> isSpace c \<and> \<not> isPunct c \<and> c \<noteq> 8364 \<and> c \<noteq> 47 \<and> c \<noteq> 64 \<and> c \<noteq> 91"

definition okAfter :: "codeunit option \<Rightarrow> codeunit \<Rightarrow> bool" where
  "okAfter prev c \<longleftrightarrow>
     plainChar c \<or>
     (isPunct c \<and> (case prev of None \<Rightarrow> True | Some a \<Rightarrow> a \<noteq> 32 \<and> a \<noteq> 10 \<and> \<not> isPunct a)) \<or>
     (c = 32 \<and> (case prev of None \<Rightarrow> False | Some a \<Rightarrow> a \<noteq> 32 \<and> a \<noteq> 10)) \<or>
     (c = 10 \<and> (case prev of None \<Rightarrow> False | Some a \<Rightarrow> a \<noteq> 32 \<and> a \<noteq> 45))"

text \<open>The line that begins \<open>s\<close> consists of digits, at least one.\<close>

definition numberLine :: "jsstring \<Rightarrow> bool" where
  "numberLine s \<longleftrightarrow>
     takeWhile isDigit s \<noteq> [] \<and> (case dropWhile isDigit s of [] \<Rightarrow> True | d # ds \<Rightarrow> d = 10)"

definition lineStart :: "codeunit option \<Rightarrow> bool" where
  "lineStart prev \<longleftrightarrow> prev = None \<or> prev = Some 10"

fun cleanFrom :: "codeunit option \<Rightarrow> jsstring \<Rightarrow> bool" where
  "cleanFrom prev [] = (prev \<noteq> Some 32 \<and> prev \<noteq> Some 10)"
| "cleanFrom prev (c # cs) =
     (okAfter prev c \<and> \<not> (c = 10 \<and> take 2 cs = [10, 10]) \<and>
      \<not> (lineStart prev \<and> numberLine (c # cs)) \<and> cleanFrom (Some c) cs)"

definition alreadyClean :: "jsstring \<Rightarrow> bool" where
  "alreadyClean x = cleanFrom None x"

text \<open>
  For the proofs: the characters of clean text; a sequence that cannot match text whose
  characters all satisfy \<open>Q\<close>, because it asks for at least one character of a class
  that \<open>Q\<close> excludes; and what holds at every position while clean text is scanned.
\<close>

definition okChar :: "codeunit \<Rightarrow> bool" where
  "okChar c \<longleftrightarrow> plainChar c \<or> isPunct c \<or> c = 32 \<or> c = 10"

fun mandatoryOutside :: "(codeunit \<Rightarrow> bool) \<Rightarrow> item \<Rightarrow> bool" where
  "mandatoryOutside Q (Rep cap p lo hi) = (0 < lo \<and> (\<forall>c. Q c \<longrightarrow> \<not> p c))"
| "mandatoryOutside Q Bol = False"
| "mandatoryOutside Q Eol = False"

definition blocked :: "(codeunit \<Rightarrow> bool) \<Rightarrow> item list \<Rightarrow> bool" where
  "blocked Q its = list_ex (mandatoryOutside Q) its"

definition scanning :: "codeunit option \<Rightarrow> jsstring \<Rightarrow> bool" where
  "scanning prev s \<longleftrightarrow> cleanFrom prev s \<and> (case prev of None \<Rightarrow> True | Some a \<Rightarrow> okChar a)"

text \<open>The service has made no client and holds none, or has made one and holds it.\<close>

definition oneClient :: "world \<Rightarrow> bool" where
  "oneClient w \<longleftrightarrow> (case client w of None \<Rightarrow> clientsCreated w = 0 | Some c \<Rightarrow> clientsCreated w = 1)"

section \<open>Evaluation\<close>

text \<open>The definitions the simplifier unfolds to run the normalizer on a given text.\<close>

lemmas class_defs =
  isSpace_def isDigit_def isLineTerminator_def isWord_def isSpaceNotLF_def isBlank_def
  isPunct_def isMailChar_def isNonSpace_def

lemmas regex_defs =
  replace_def many0_def many1_def lit_def cls_def optional_def capCls_def capMany1_def
  manyN_def bounded_def atLineStart_def atLineEnd_def prevAfter_def

lemmas step_defs =
  fixApostrophes_def fixQuotes_def fixEllipsis_def fixEmDash_def fixEnDash_def
  removePageNumbers_def fixHyphenation_def collapseSpaces_def collapseLineBreaks_def
  trimLines_def removeCitations_def removeSpaceBeforePunct_def spacePunct_def
  removeUrls_def removeEmails_def cleanSteps_def

lemmas eval_defs = class_defs regex_defs step_defs ustr_def trim_def Let_def

text \<open>The examples of the specification.\<close>

lemma cleanText_hyphenation:
  "cleanText (\<lambda>s. s) (JSString (ustr ''exam-\<newline>ple'')) = ustr ''example''"
  by (simp add: eval_defs)

lemma cleanText_spaces:
  "cleanText (\<lambda>s. s) (JSString (ustr ''Hello   world'')) = ustr ''Hello world''"
  by (simp add: eval_defs)

lemma cleanText_citations:
  "cleanText (\<lambda>s. s) (JSString (ustr ''See [1] and [23].'')) = ustr ''See  and.''"
  by (simp add: eval_defs)

lemma cleanText_url:
  "cleanText (\<lambda>s. s) (JSString (ustr ''Visit https://example.com now'')) = ustr ''Visit  now''"
  by (simp add: eval_defs)

section \<open>The normalizer: totality\<close>

text \<open>
  Claim C6. \<open>cleanText\<close> is a function from values to strings, defined by recursion that
  terminates on every input, so it returns a string for every input, the same one for
  the same input. For the empty string it returns the empty string, and so it does for
  every value that is not a string.
\<close>

theorem cleanText_total:
  "cleanText nfc (JSString []) = [] \<and> ((\<forall>s. v \<noteq> JSString s) \<longrightarrow> cleanText nfc v = [])"
  by (cases v) auto

theorem cleanText_total_witness:
  "cleanText (\<lambda>s. s) (JSString []) = [] \<and>
   (\<forall>s. JSNumber 42 \<noteq> JSString s) \<and> cleanText (\<lambda>s. s) (JSNumber 42) = []"
  using cleanText_total [of "\<lambda>s. s" "JSNumber 42"] by simp

section \<open>The record builder: counts\<close>

text \<open>
  The builder that cleans stores the cleaned text and counts it: \<open>character_count\<close> is
  the length of the cleaned text and \<open>token_count\<close> is a quarter of it, rounded up.
\<close>

lemma createDocumentStructure_counts:
  "content_text (createDocumentStructure nfc k f) =
     cleanText nfc (JSString (trim (content_text_value f))) \<and>
   character_count (training_metadata (createDocumentStructure nfc k f)) =
     int (length (cleanText nfc (JSString (trim (content_text_value f))))) \<and>
   token_count (training_metadata (createDocumentStructure nfc k f)) =
     \<lceil>real_of_int (character_count (training_metadata (createDocumentStructure nfc k f))) / 4\<rceil>"
  by (simp add: createDocumentStructure_def documentLiteral_def Let_def)

lemma createDocumentStructure_400:
  "length (cleanText nfc (JSString (trim (content_text_value f)))) = 400 \<Longrightarrow>
   token_count (training_metadata (createDocumentStructure nfc k f)) = 100"
  by (simp add: createDocumentStructure_def documentLiteral_def Let_def)

text \<open>
  The builder of \<open>public/script.js\<close> stores the trimmed text as it was typed and counts
  that.
\<close>

lemma createDocumentStructure_public_counts:
  "content_text (createDocumentStructure_public k f) = trim (content_text_value f) \<and>
   character_count (training_metadata (createDocumentStructure_public k f)) =
     int (length (trim (content_text_value f))) \<and>
   token_count (training_metadata (createDocumentStructure_public k f)) =
     \<lceil>real_of_int (character_count (training_metadata (createDocumentStructure_public k f))) / 4\<rceil>"
  by (simp add: createDocumentStructure_public_def documentLiteral_def Let_def)

lemma sample_text_trim: "trim (content_text_value sampleForm) = ustr ''Hello   world''"
  by (simp add: sampleForm_def eval_defs)

text \<open>
  Claim C4, at the valid form whose text is \<open>Hello   world\<close>, with three spaces: the
  record of \<open>public/script.js\<close> has \<open>character_count\<close> 13, the length of the text as
  typed, while the cleaned text has length 11.
\<close>

theorem createDocumentStructure_public_counts_raw_text:
  "validateForm sampleForm \<and>
   character_count (training_metadata (createDocumentStructure_public sampleClock sampleForm)) = 13 \<and>
   int (length (cleanText (\<lambda>s. s) (JSString (trim (content_text_value sampleForm))))) = 11"
proof -
  have "character_count (training_metadata (createDocumentStructure_public sampleClock sampleForm))
          = int (length (ustr ''Hello   world''))"
    by (simp add: createDocumentStructure_public_counts sample_text_trim)
  moreover have "cleanText (\<lambda>s. s) (JSString (trim (content_text_value sampleForm)))
          = ustr ''Hello world''"
    by (simp only: sample_text_trim cleanText_spaces)
  moreover have "validateForm sampleForm"
    by (simp add: validateForm_def sample_text_trim) (simp add: sampleForm_def eval_defs)
  ultimately show ?thesis by (simp add: ustr_def)
qed

section \<open>The normalizer: idempotence\<close>

text \<open>
  Claim C5, refuted as stated: the text \<open>Visit https://example.com now\<close> is cleaned to
  \<open>Visit  now\<close>, with the two spaces that stood around the address, and cleaning that
  again gives \<open>Visit now\<close>.
\<close>

theorem cleanText_not_idempotent:
  "cleanText (\<lambda>s. s) (JSString (cleanText (\<lambda>s. s) (JSString (ustr ''Visit https://example.com now''))))
     \<noteq> cleanText (\<lambda>s. s) (JSString (ustr ''Visit https://example.com now''))"
  by (simp add: eval_defs)

subsection \<open>Text that no step changes\<close>

text \<open>A sequence that asks for a character outside the text's alphabet matches nowhere.\<close>

lemma okAfter_okChar: "okAfter prev c \<Longrightarrow> okChar c"
  by (auto simp: okAfter_def okChar_def)

lemma cleanFrom_okChar: "cleanFrom prev s \<Longrightarrow> \<forall>c\<in>set s. okChar c"
proof (induction s arbitrary: prev)
  case Nil
  show ?case by simp
next
  case (Cons c cs)
  from Cons.prems have "okAfter prev c" "cleanFrom (Some c) cs" by simp_all
  with Cons.IH [of "Some c"] show ?case by (auto dest: okAfter_okChar)
qed

lemma takeWhile_outside:
  "\<forall>c\<in>set s. Q c \<Longrightarrow> \<forall>c. Q c \<longrightarrow> \<not> p c \<Longrightarrow> takeWhile p s = []"
  by (cases s) auto

lemma blocked_no_match:
  "(\<forall>c\<in>set s. Q c) \<longrightarrow> blocked Q its \<longrightarrow> matchItems its prev s = None"
  "(\<forall>c\<in>set s. Q c) \<longrightarrow> blocked Q its \<longrightarrow> tryCounts its cap lo prev s k = None"
proof (induction its prev s and its cap lo prev s k rule: matchItems_tryCounts.induct)
  case (1 prev s)
  show ?case by (simp add: blocked_def)
next
  case (2 its prev s)
  then show ?case by (simp add: blocked_def)
next
  case (3 its prev s)
  then show ?case by (simp add: blocked_def)
next
  case (4 cap p lo hi its prev s)
  show ?case
  proof (intro impI)
    assume q: "\<forall>c\<in>set s. Q c" and b: "blocked Q (Rep cap p lo hi # its)"
    show "matchItems (Rep cap p lo hi # its) prev s = None"
    proof (cases "blocked Q its")
      case True
      with 4 q show ?thesis by simp
    next
      case False
      with b have lo: "0 < lo" and out: "\<forall>c. Q c \<longrightarrow> \<not> p c" by (auto simp: blocked_def)
      from takeWhile_outside [OF q out] have "bounded hi (length (takeWhile p s)) = 0"
        by (simp add: bounded_def split: option.split)
      with lo show ?thesis by simp
    qed
  qed
next
  case (5 its cap lo prev s)
  then show ?case by simp
next
  case (6 its cap lo prev s k)
  show ?case
  proof (intro impI)
    assume q: "\<forall>c\<in>set s. Q c" and b: "blocked Q its"
    from q have "\<forall>c\<in>set (drop (Suc k) s). Q c" by (auto dest: in_set_dropD)
    with 6 b q show "tryCounts its cap lo prev s (Suc k) = None" by simp
  qed
qed

text \<open>
  A scan leaves the text as it is when, at every position, the expression does not
  match or matches one character and replaces it by itself.
\<close>

lemma replaceAll_fixed:
  assumes step: "\<And>prev c cs. J prev (c # cs) \<Longrightarrow>
      J (Some c) cs \<and>
      (matchRegex re prev (c # cs) = None \<or>
       (\<exists>caps. matchRegex re prev (c # cs) = Some (caps, 1) \<and> expand t caps [c] = [c]))"
    and last: "\<And>prev. matchRegex re prev [] = None"
  shows "J prev s \<Longrightarrow> replaceAll re t prev s = s"
proof (induction s arbitrary: prev)
  case Nil
  show ?case by (simp add: last)
next
  case (Cons c cs)
  from step [OF Cons.prems] have i: "J (Some c) cs"
    and m: "matchRegex re prev (c # cs) = None \<or>
       (\<exists>caps. matchRegex re prev (c # cs) = Some (caps, 1) \<and> expand t caps [c] = [c])"
    by auto
  from m show ?case
  proof
    assume "matchRegex re prev (c # cs) = None"
    then show ?thesis using Cons.IH [OF i] by simp
  next
    assume "\<exists>caps. matchRegex re prev (c # cs) = Some (caps, 1) \<and> expand t caps [c] = [c]"
    then obtain caps where "matchRegex re prev (c # cs) = Some (caps, 1)" "expand t caps [c] = [c]"
      by blast
    then show ?thesis using Cons.IH [OF i] by (simp add: prevAfter_def)
  qed
qed

lemma okChar_facts:
  "okChar c \<Longrightarrow> c \<noteq> 32 \<Longrightarrow> c \<noteq> 10 \<Longrightarrow> \<not> isSpace c"
  "okChar c \<Longrightarrow> c \<noteq> 10 \<Longrightarrow> \<not> isLineTerminator c"
  "okChar c \<Longrightarrow> c \<noteq> 8364 \<and> c \<noteq> 47 \<and> c \<noteq> 64 \<and> c \<noteq> 9 \<and> c \<noteq> 91"
  by (auto simp: okChar_def plainChar_def isSpace_def isPunct_def isLineTerminator_def)

lemma plainChar_facts:
  "plainChar c \<Longrightarrow> \<not> isSpace c \<and> \<not> isPunct c \<and> \<not> isBlank c \<and> \<not> isSpaceNotLF c \<and>
     \<not> isLineTerminator c \<and> c \<noteq> 32 \<and> c \<noteq> 10"
  by (auto simp: plainChar_def isSpace_def isBlank_def isSpaceNotLF_def isLineTerminator_def)

lemma isPunct_facts:
  "isPunct c \<Longrightarrow> \<not> isSpace c \<and> \<not> isBlank c \<and> \<not> isSpaceNotLF c \<and>
     \<not> isLineTerminator c \<and> \<not> isDigit c \<and> c \<noteq> 32 \<and> c \<noteq> 10 \<and> c \<noteq> 45"
  by (auto simp: isPunct_def isSpace_def isBlank_def isSpaceNotLF_def isLineTerminator_def isDigit_def)

lemma space_facts:
  "isSpace 32" "isBlank 32" "isSpaceNotLF 32" "\<not> isPunct 32" "\<not> isLineTerminator 32" "\<not> isDigit 32"
  by (simp_all add: isSpace_def isBlank_def isSpaceNotLF_def isPunct_def isLineTerminator_def isDigit_def)

lemma newline_facts:
  "isSpace 10" "\<not> isBlank 10" "\<not> isSpaceNotLF 10" "\<not> isPunct 10" "isLineTerminator 10" "\<not> isDigit 10"
  by (simp_all add: isSpace_def isBlank_def isSpaceNotLF_def isPunct_def isLineTerminator_def isDigit_def)

lemma scanning_next: "scanning prev (c # cs) \<Longrightarrow> scanning (Some c) cs"
  by (auto simp: scanning_def dest: okAfter_okChar)

lemma scanning_start: "alreadyClean x \<Longrightarrow> scanning None x"
  by (simp add: scanning_def alreadyClean_def)

lemma scanning_drop: "scanning prev s \<Longrightarrow> j < length s \<Longrightarrow> \<exists>q. scanning q (drop j s)"
proof (induction j arbitrary: prev s)
  case 0
  then show ?case by auto
next
  case (Suc j)
  then obtain c cs where s: "s = c # cs" by (cases s) auto
  with Suc.prems have "scanning (Some c) cs" "j < length cs" by (auto dest: scanning_next)
  from Suc.IH [OF this] s show ?case by simp
qed

text \<open>What stands at a position of clean text, and what follows it.\<close>

lemma after_space: "cleanFrom (Some 32) xs \<Longrightarrow> \<exists>d ds. xs = d # ds \<and> plainChar d"
  by (cases xs) (auto simp: okAfter_def)

lemma after_newline:
  "cleanFrom (Some 10) xs \<Longrightarrow> \<exists>d ds. xs = d # ds \<and> (plainChar d \<or> d = 10)"
  by (cases xs) (auto simp: okAfter_def)

lemma after_newline_cases:
  assumes "cleanFrom (Some a) (10 # xs)"
  shows "(\<exists>e es. xs = e # es \<and> plainChar e) \<or> (\<exists>e es. xs = 10 # e # es \<and> plainChar e)"
proof -
  from assms have r: "cleanFrom (Some 10) xs" and n3: "take 2 xs \<noteq> [10, 10]" by simp_all
  from after_newline [OF r] obtain d ds where x: "xs = d # ds" and d: "plainChar d \<or> d = 10" by blast
  from d show ?thesis
  proof
    assume "plainChar d"
    with x show ?thesis by blast
  next
    assume d10: "d = 10"
    with x r have r2: "cleanFrom (Some 10) ds" by simp
    from after_newline [OF r2] obtain e es where y: "ds = e # es" and e: "plainChar e \<or> e = 10" by blast
    with n3 x d10 have "plainChar e" by auto
    with x d10 y show ?thesis by blast
  qed
qed

lemma scanning_cases:
  assumes "scanning prev (c # cs)"
  obtains
    (plain) "plainChar c"
  | (punct_end) "isPunct c" "cs = []"
  | (punct_plain) d ds where "isPunct c" "cs = d # ds" "plainChar d"
  | (punct_space) e es where "isPunct c" "cs = 32 # e # es" "plainChar e"
  | (punct_nl) e es where "isPunct c" "cs = 10 # e # es" "plainChar e"
  | (punct_nl2) e es where "isPunct c" "cs = 10 # 10 # e # es" "plainChar e"
  | (space) a d ds where "c = 32" "prev = Some a" "okChar a" "a \<noteq> 32" "a \<noteq> 10" "cs = d # ds" "plainChar d"
  | (nl) a e es where "c = 10" "prev = Some a" "okChar a" "a \<noteq> 32" "a \<noteq> 45" "cs = e # es" "plainChar e"
  | (nl2) a e es where "c = 10" "prev = Some a" "okChar a" "a \<noteq> 32" "a \<noteq> 45" "cs = 10 # e # es" "plainChar e"
proof -
  from assms have ok: "okAfter prev c" and rest: "cleanFrom (Some c) cs"
    and whole: "cleanFrom prev (c # cs)"
    and pr: "case prev of None \<Rightarrow> True | Some a \<Rightarrow> okChar a"
    by (simp_all add: scanning_def)
  consider "plainChar c" | "isPunct c" "\<not> plainChar c" | "c = 32" "\<not> plainChar c" "\<not> isPunct c"
    | "c = 10" "\<not> plainChar c" "\<not> isPunct c"
    using ok by (auto simp: okAfter_def)
  then show thesis
  proof cases
    case 1
    then show ?thesis by (rule plain)
  next
    case 2
    show ?thesis
    proof (cases cs)
      case Nil
      with 2 show ?thesis by (auto intro: punct_end)
    next
      case (Cons d ds)
      with rest have okd: "okAfter (Some c) d" and restd: "cleanFrom (Some d) ds"
        and restc: "cleanFrom (Some c) (d # ds)" by simp_all
      from okd 2 consider "plainChar d" | "d = 32" "\<not> plainChar d" | "d = 10" "\<not> plainChar d"
        by (auto simp: okAfter_def)
      then show ?thesis
      proof cases
        case 1
        with 2 Cons show ?thesis by (auto intro: punct_plain)
      next
        case 2
        with restd after_space obtain e es where "ds = e # es" "plainChar e" by blast
        with \<open>isPunct c\<close> Cons 2 show ?thesis by (auto intro: punct_space)
      next
        case 3
        with restc have "cleanFrom (Some c) (10 # ds)" by simp
        from after_newline_cases [OF this] \<open>isPunct c\<close> Cons 3 show ?thesis
          by (auto intro: punct_nl punct_nl2)
      qed
    qed
  next
    case 3
    with ok obtain a where a: "prev = Some a" "a \<noteq> 32" "a \<noteq> 10"
      by (auto simp: okAfter_def split: option.splits)
    with pr have "okChar a" by simp
    moreover from rest 3 after_space obtain d ds where "cs = d # ds" "plainChar d" by blast
    ultimately show ?thesis using 3 a by (auto intro: space)
  next
    case 4
    with ok obtain a where a: "prev = Some a" "a \<noteq> 32" "a \<noteq> 45"
      by (auto simp: okAfter_def split: option.splits)
    with pr have oa: "okChar a" by simp
    from whole 4 a have "cleanFrom (Some a) (10 # cs)" by simp
    from after_newline_cases [OF this] 4 a oa show ?thesis
      by (auto intro: nl nl2)
  qed
qed

lemma replace_scanning:
  assumes step: "\<And>prev c cs. scanning prev (c # cs) \<Longrightarrow>
      matchRegex re prev (c # cs) = None \<or>
      (\<exists>caps. matchRegex re prev (c # cs) = Some (caps, 1) \<and> expand t caps [c] = [c])"
    and last: "\<And>prev. matchRegex re prev [] = None"
    and c: "alreadyClean x"
  shows "replace re t x = x"
proof -
  have "\<And>prev c cs. scanning prev (c # cs) \<Longrightarrow>
      scanning (Some c) cs \<and>
      (matchRegex re prev (c # cs) = None \<or>
       (\<exists>caps. matchRegex re prev (c # cs) = Some (caps, 1) \<and> expand t caps [c] = [c]))"
    using step scanning_next by blast
  from replaceAll_fixed [of scanning re t, OF this last scanning_start [OF c]]
  show ?thesis by (simp add: replace_def)
qed

text \<open>The quote steps replace a quote by itself: they change no text at all.\<close>

lemma fixApostrophes_id: "fixApostrophes x = x"
proof -
  have "replaceAll [[cls (\<lambda>c. c = 39)]] [Txt [39]] None x = x"
    by (rule replaceAll_fixed [of "\<lambda>p s. True"]) (auto simp: cls_def bounded_def)
  then show ?thesis by (simp add: fixApostrophes_def replace_def)
qed

lemma fixQuotes_id: "fixQuotes x = x"
proof -
  have "replaceAll [[cls (\<lambda>c. c = 34)]] [Txt [34]] None x = x"
    by (rule replaceAll_fixed [of "\<lambda>p s. True"]) (auto simp: cls_def bounded_def)
  then show ?thesis by (simp add: fixQuotes_def replace_def)
qed

text \<open>The steps whose expression asks for a character that clean text does not have.\<close>

lemma replace_blocked:
  assumes b: "blocked okChar its" and c: "alreadyClean x"
  shows "replace [its] t x = x"
proof (rule replace_scanning [OF _ _ c])
  fix prev c cs assume "scanning prev (c # cs)"
  then have "cleanFrom prev (c # cs)" by (simp only: scanning_def)
  then have "\<forall>x\<in>set (c # cs). okChar x" by (rule cleanFrom_okChar)
  then have "matchItems its prev (c # cs) = None"
    using blocked_no_match(1) [of "c # cs" okChar its prev] b by blast
  then show "matchRegex [its] prev (c # cs) = None \<or>
      (\<exists>caps. matchRegex [its] prev (c # cs) = Some (caps, 1) \<and> expand t caps [c] = [c])"
    by simp
next
  fix prev show "matchRegex [its] prev [] = None"
    using blocked_no_match(1) [of "[]" okChar its prev] b by simp
qed

lemma blocked_steps:
  "blocked okChar [lit 226, lit 8364, lit 166]"
  "blocked okChar [lit 226, lit 8364, lit 8221]"
  "blocked okChar [lit 226, lit 8364, lit 8220]"
  "blocked okChar [lit 91, many1 isDigit, lit 93]"
  "blocked okChar [lit 104, lit 116, lit 116, lit 112, optional (\<lambda>c. c = 115), lit 58, lit 47, lit 47,
               many1 isNonSpace]"
  "blocked okChar [many1 isMailChar, lit 64, many1 isMailChar, lit 46, many1 isWord]"
  using okChar_facts(3)
  by (auto simp: blocked_def lit_def many0_def many1_def manyN_def capMany1_def optional_def)

lemma clean_fixEllipsis: "alreadyClean x \<Longrightarrow> fixEllipsis x = x"
  unfolding fixEllipsis_def by (rule replace_blocked [OF blocked_steps(1)])

lemma clean_fixEmDash: "alreadyClean x \<Longrightarrow> fixEmDash x = x"
  unfolding fixEmDash_def by (rule replace_blocked [OF blocked_steps(2)])

lemma clean_fixEnDash: "alreadyClean x \<Longrightarrow> fixEnDash x = x"
  unfolding fixEnDash_def by (rule replace_blocked [OF blocked_steps(3)])

lemma clean_removeCitations: "alreadyClean x \<Longrightarrow> removeCitations x = x"
  unfolding removeCitations_def by (rule replace_blocked [OF blocked_steps(4)])

lemma clean_removeUrls: "alreadyClean x \<Longrightarrow> removeUrls x = x"
  unfolding removeUrls_def by (rule replace_blocked [OF blocked_steps(5)])

lemma clean_removeEmails: "alreadyClean x \<Longrightarrow> removeEmails x = x"
  unfolding removeEmails_def by (rule replace_blocked [OF blocked_steps(6)])

text \<open>The steps about spaces, line feeds and punctuation, position by position.\<close>

lemmas pos_simps =
  many0_def many1_def manyN_def capCls_def capMany1_def lit_def bounded_def
  space_facts newline_facts atLineStart_def atLineEnd_def prevAfter_def

lemma clean_collapseSpaces: "alreadyClean x \<Longrightarrow> collapseSpaces x = x"
  unfolding collapseSpaces_def
proof (rule replace_scanning)
  fix prev c cs assume "scanning prev (c # cs)"
  then show "matchRegex [[many1 isSpaceNotLF]] prev (c # cs) = None \<or>
      (\<exists>caps. matchRegex [[many1 isSpaceNotLF]] prev (c # cs) = Some (caps, 1) \<and>
         expand [Txt [32]] caps [c] = [c])"
    by (cases rule: scanning_cases) (auto simp: pos_simps dest: plainChar_facts isPunct_facts)
next
  fix prev show "matchRegex [[many1 isSpaceNotLF]] prev [] = None"
    by (simp add: pos_simps)
qed

lemma clean_collapseLineBreaks: "alreadyClean x \<Longrightarrow> collapseLineBreaks x = x"
  unfolding collapseLineBreaks_def
proof (rule replace_scanning)
  fix prev c cs assume "scanning prev (c # cs)"
  then show "matchRegex [[manyN 3 (\<lambda>c. c = 10)]] prev (c # cs) = None \<or>
      (\<exists>caps. matchRegex [[manyN 3 (\<lambda>c. c = 10)]] prev (c # cs) = Some (caps, 1) \<and>
         expand [Txt [10, 10]] caps [c] = [c])"
    by (cases rule: scanning_cases) (auto simp: pos_simps dest: plainChar_facts isPunct_facts)
next
  fix prev show "matchRegex [[manyN 3 (\<lambda>c. c = 10)]] prev [] = None"
    by (simp add: pos_simps)
qed

lemma clean_trimLines: "alreadyClean x \<Longrightarrow> trimLines x = x"
  unfolding trimLines_def
proof (rule replace_scanning)
  fix prev c cs assume "scanning prev (c # cs)"
  then show "matchRegex [[Bol, many1 isBlank], [many1 isBlank, Eol]] prev (c # cs) = None \<or>
      (\<exists>caps. matchRegex [[Bol, many1 isBlank], [many1 isBlank, Eol]] prev (c # cs) = Some (caps, 1) \<and>
         expand [] caps [c] = [c])"
    by (cases rule: scanning_cases)
       (auto simp: pos_simps dest: plainChar_facts isPunct_facts okChar_facts(2))
next
  fix prev show "matchRegex [[Bol, many1 isBlank], [many1 isBlank, Eol]] prev [] = None"
    by (simp add: pos_simps)
qed

lemma clean_removeSpaceBeforePunct: "alreadyClean x \<Longrightarrow> removeSpaceBeforePunct x = x"
  unfolding removeSpaceBeforePunct_def
proof (rule replace_scanning)
  fix prev c cs assume "scanning prev (c # cs)"
  then show "matchRegex [[many1 isSpace, capCls isPunct]] prev (c # cs) = None \<or>
      (\<exists>caps. matchRegex [[many1 isSpace, capCls isPunct]] prev (c # cs) = Some (caps, 1) \<and>
         expand [Ref 1] caps [c] = [c])"
    by (cases rule: scanning_cases) (auto simp: pos_simps dest: plainChar_facts isPunct_facts)
next
  fix prev show "matchRegex [[many1 isSpace, capCls isPunct]] prev [] = None"
    by (simp add: pos_simps)
qed

lemma clean_spacePunct: "alreadyClean x \<Longrightarrow> spacePunct x = x"
  unfolding spacePunct_def
proof (rule replace_scanning)
  fix prev c cs assume "scanning prev (c # cs)"
  then show "matchRegex [[capCls isPunct, many0 isSpace, capCls isPunct]] prev (c # cs) = None \<or>
      (\<exists>caps. matchRegex [[capCls isPunct, many0 isSpace, capCls isPunct]] prev (c # cs) = Some (caps, 1) \<and>
         expand [Ref 1, Txt [32], Ref 2] caps [c] = [c])"
    by (cases rule: scanning_cases) (auto simp: pos_simps dest: plainChar_facts isPunct_facts)
next
  fix prev show "matchRegex [[capCls isPunct, many0 isSpace, capCls isPunct]] prev [] = None"
    by (simp add: pos_simps)
qed

text \<open>
  A greedy repetition fails when the rest of the sequence fails after every number of
  repetitions it can try.
\<close>

lemma tryCounts_none:
  "(\<And>j. lo \<le> j \<Longrightarrow> j \<le> k \<Longrightarrow> matchItems its (prevAfter prev s j) (drop j s) = None) \<Longrightarrow>
   tryCounts its cap lo prev s k = None"
proof (induction k)
  case 0
  show ?case
  proof (cases "0 < lo")
    case True
    then show ?thesis by simp
  next
    case False
    with "0.prems" [of 0] show ?thesis by (simp add: prevAfter_def)
  qed
next
  case (Suc k)
  show ?case
  proof (cases "Suc k < lo")
    case True
    then show ?thesis by simp
  next
    case False
    with Suc.prems [of "Suc k"] have "matchItems its (prevAfter prev s (Suc k)) (drop (Suc k) s) = None"
      by simp
    moreover have "tryCounts its cap lo prev s k = None"
      by (rule Suc.IH) (simp add: Suc.prems)
    ultimately show ?thesis using False by simp
  qed
qed

text \<open>
  The page-number step: its expression starts at the start of a line and, after the
  digits, asks for the end of the line, which does not follow them, since no line is a
  number alone.
\<close>

lemma no_line_end:
  assumes "scanning q s" "s \<noteq> []" "hd s \<noteq> 10"
  shows "matchItems [many0 isSpace, Eol] p s = None"
proof -
  from assms obtain c cs where s: "s = c # cs" and c: "c \<noteq> 10" by (cases s) auto
  with assms have "scanning q (c # cs)" by simp
  then have "matchItems [many0 isSpace, Eol] p (c # cs) = None"
    using c
    by (cases rule: scanning_cases) (auto simp: pos_simps dest: plainChar_facts isPunct_facts)
  with s show ?thesis by simp
qed

lemma drop_in_digits:
  assumes "j \<le> length (takeWhile isDigit s)" "dropWhile isDigit s = d # ds" "d \<noteq> 10"
  shows "drop j s \<noteq> [] \<and> hd (drop j s) \<noteq> 10"
proof -
  let ?xs = "takeWhile isDigit s"
  have s: "s = ?xs @ d # ds" using assms(2) takeWhile_dropWhile_id [of isDigit s] by simp
  from assms(1) have dj: "drop j s = drop j ?xs @ d # ds"
    by (subst s) simp
  show ?thesis
  proof (cases "drop j ?xs")
    case Nil
    with dj assms(3) show ?thesis by simp
  next
    case (Cons y ys)
    then have "y \<in> set ?xs" by (metis in_set_dropD list.set_intros(1))
    then have "isDigit y" by (rule set_takeWhileD [THEN conjunct2])
    then have "y \<noteq> 10" by (auto simp: isDigit_def)
    with dj Cons show ?thesis by simp
  qed
qed

lemma no_number:
  assumes sc: "scanning q s" and nn: "\<not> numberLine s"
  shows "matchItems [many1 isDigit, many0 isSpace, Eol] p s = None"
proof (cases "takeWhile isDigit s = []")
  case True
  then show ?thesis by (simp add: many1_def bounded_def)
next
  case False
  with nn obtain d ds where dw: "dropWhile isDigit s = d # ds" and d: "d \<noteq> 10"
    by (auto simp: numberLine_def split: list.splits)
  have "tryCounts [many0 isSpace, Eol] False 1 p s (length (takeWhile isDigit s)) = None"
  proof (rule tryCounts_none)
    fix j assume "1 \<le> j" and j: "j \<le> length (takeWhile isDigit s)"
    from drop_in_digits [OF j dw d] have ne: "drop j s \<noteq> []" and hd: "hd (drop j s) \<noteq> 10"
      by simp_all
    from ne have "j < length s" by simp
    from scanning_drop [OF sc this] obtain q' where "scanning q' (drop j s)" by blast
    then show "matchItems [many0 isSpace, Eol] (prevAfter p s j) (drop j s) = None"
      using ne hd by (rule no_line_end)
  qed
  then show ?thesis by (simp add: many1_def bounded_def)
qed

lemma not_numberLine_newline: "\<not> numberLine (10 # s)"
  by (simp add: numberLine_def newline_facts)

lemma scanning_not_numberLine:
  "scanning (Some 10) (e # es) \<Longrightarrow> \<not> numberLine (e # es)"
  by (simp add: scanning_def lineStart_def)

lemma clean_removePageNumbers: "alreadyClean x \<Longrightarrow> removePageNumbers x = x"
  unfolding removePageNumbers_def
proof (rule replace_scanning)
  fix prev c cs assume sc: "scanning prev (c # cs)"
  let ?tail = "[many1 isDigit, many0 isSpace, Eol]"
  have "matchItems (Bol # many0 isSpace # ?tail) prev (c # cs) = None"
  proof (cases "lineStart prev")
    case False
    then obtain a where a: "prev = Some a" "a \<noteq> 10" by (cases prev) (auto simp: lineStart_def)
    with sc have "okChar a" by (simp add: scanning_def)
    with a have "\<not> isLineTerminator a" by (simp add: okChar_facts(2))
    with a show ?thesis by (simp add: atLineStart_def)
  next
    case True
    with sc have nn: "\<not> numberLine (c # cs)" by (simp add: scanning_def)
    have here: "matchItems ?tail prev (c # cs) = None"
      by (rule no_number [OF sc nn])
    from sc show ?thesis
    proof (cases rule: scanning_cases)
      case plain
      then have "\<not> isSpace c" by (simp add: plainChar_facts)
      with here show ?thesis by (simp add: many0_def bounded_def)
    next
      case punct_end
      then have "\<not> isSpace c" by (simp add: isPunct_facts)
      with here show ?thesis by (simp add: many0_def bounded_def)
    next
      case (punct_plain d ds)
      then have "\<not> isSpace c" by (simp add: isPunct_facts)
      with here show ?thesis by (simp add: many0_def bounded_def)
    next
      case (punct_space e es)
      then have "\<not> isSpace c" by (simp add: isPunct_facts)
      with here show ?thesis by (simp add: many0_def bounded_def)
    next
      case (punct_nl e es)
      then have "\<not> isSpace c" by (simp add: isPunct_facts)
      with here show ?thesis by (simp add: many0_def bounded_def)
    next
      case (punct_nl2 e es)
      then have "\<not> isSpace c" by (simp add: isPunct_facts)
      with here show ?thesis by (simp add: many0_def bounded_def)
    next
      case (space a d ds)
      with True show ?thesis by (simp add: lineStart_def)
    next
      case (nl a e es)
      with sc have s1: "scanning (Some 10) (e # es)" by (auto dest: scanning_next)
      have "matchItems ?tail (Some 10) (e # es) = None"
        by (rule no_number [OF s1 scanning_not_numberLine [OF s1]])
      moreover have "matchItems ?tail prev (10 # e # es) = None"
        using here nl by simp
      moreover have "\<not> isSpace e" using nl by (simp add: plainChar_facts)
      ultimately show ?thesis
        using nl by (simp add: many0_def bounded_def newline_facts prevAfter_def)
    next
      case (nl2 a e es)
      with sc have s1: "scanning (Some 10) (10 # e # es)" by (auto dest: scanning_next)
      then have s2: "scanning (Some 10) (e # es)" by (rule scanning_next)
      have "matchItems ?tail (Some 10) (e # es) = None"
        by (rule no_number [OF s2 scanning_not_numberLine [OF s2]])
      moreover have "matchItems ?tail (Some 10) (10 # e # es) = None"
        by (rule no_number [OF s1 not_numberLine_newline])
      moreover have "matchItems ?tail prev (10 # 10 # e # es) = None"
        using here nl2 by simp
      moreover have "\<not> isSpace e" using nl2 by (simp add: plainChar_facts)
      ultimately show ?thesis
        using nl2 by (simp add: many0_def bounded_def newline_facts prevAfter_def)
    qed
  qed
  then show "matchRegex [[Bol, many0 isSpace, many1 isDigit, many0 isSpace, Eol]] prev (c # cs) = None \<or>
      (\<exists>caps. matchRegex [[Bol, many0 isSpace, many1 isDigit, many0 isSpace, Eol]] prev (c # cs) = Some (caps, 1) \<and>
         expand [] caps [c] = [c])"
    by simp
next
  fix prev show "matchRegex [[Bol, many0 isSpace, many1 isDigit, many0 isSpace, Eol]] prev [] = None"
    by (simp add: pos_simps)
qed

text \<open>
  The hyphenation step: after the hyphen its expression asks for a line feed, with white
  space before it at most, and in clean text no line ends with a hyphen.
\<close>

lemma after_hyphen:
  assumes "scanning (Some 45) s"
  shows "matchItems [many0 isSpace, lit 10, many0 isSpace, capMany1 isWord] p s = None"
proof (cases s)
  case Nil
  then show ?thesis by (simp add: pos_simps)
next
  case (Cons c cs)
  with assms have "scanning (Some 45) (c # cs)" by simp
  then have "matchItems [many0 isSpace, lit 10, many0 isSpace, capMany1 isWord] p (c # cs) = None"
    by (cases rule: scanning_cases) (auto simp: pos_simps dest: plainChar_facts isPunct_facts)
  with Cons show ?thesis by simp
qed

lemma no_hyphen_break:
  assumes "s = [] \<or> (\<exists>q. scanning q s)"
  shows "matchItems [lit 45, many0 isSpace, lit 10, many0 isSpace, capMany1 isWord] p s = None"
proof (cases s)
  case Nil
  then show ?thesis by (simp add: pos_simps)
next
  case (Cons c cs)
  with assms obtain q where sc: "scanning q (c # cs)" by auto
  show ?thesis
  proof (cases "c = 45")
    case False
    with Cons show ?thesis by (simp add: pos_simps)
  next
    case True
    with sc have "scanning (Some 45) cs" by (auto dest: scanning_next)
    from after_hyphen [OF this, of "Some 45"] Cons True show ?thesis
      by (simp add: lit_def bounded_def prevAfter_def)
  qed
qed

lemma clean_fixHyphenation: "alreadyClean x \<Longrightarrow> fixHyphenation x = x"
  unfolding fixHyphenation_def
proof (rule replace_scanning)
  fix prev c cs assume sc: "scanning prev (c # cs)"
  let ?rest = "[lit 45, many0 isSpace, lit 10, many0 isSpace, capMany1 isWord]"
  have "tryCounts ?rest True 1 prev (c # cs) (length (takeWhile isWord (c # cs))) = None"
  proof (rule tryCounts_none)
    fix j assume "1 \<le> j" "j \<le> length (takeWhile isWord (c # cs))"
    have "drop j (c # cs) = [] \<or> (\<exists>q. scanning q (drop j (c # cs)))"
    proof (cases "j < length (c # cs)")
      case True
      from scanning_drop [OF sc True] show ?thesis by blast
    next
      case False
      then show ?thesis by simp
    qed
    then show "matchItems ?rest (prevAfter prev (c # cs) j) (drop j (c # cs)) = None"
      by (rule no_hyphen_break)
  qed
  then have "matchItems (capMany1 isWord # ?rest) prev (c # cs) = None"
    by (simp add: capMany1_def bounded_def)
  then show "matchRegex [[capMany1 isWord, lit 45, many0 isSpace, lit 10, many0 isSpace, capMany1 isWord]]
        prev (c # cs) = None \<or>
      (\<exists>caps. matchRegex [[capMany1 isWord, lit 45, many0 isSpace, lit 10, many0 isSpace, capMany1 isWord]]
        prev (c # cs) = Some (caps, 1) \<and> expand [Ref 1, Ref 2] caps [c] = [c])"
    by simp
next
  fix prev
  show "matchRegex [[capMany1 isWord, lit 45, many0 isSpace, lit 10, many0 isSpace, capMany1 isWord]]
      prev [] = None"
    by (simp add: pos_simps)
qed

text \<open>The final trim, and all steps together.\<close>

lemma cleanFrom_last:
  "cleanFrom prev s \<Longrightarrow> s \<noteq> [] \<Longrightarrow> okChar (last s) \<and> last s \<noteq> 32 \<and> last s \<noteq> 10"
proof (induction s arbitrary: prev)
  case Nil
  then show ?case by simp
next
  case (Cons c cs)
  show ?case
  proof (cases cs)
    case Nil
    with Cons.prems show ?thesis by (auto dest: okAfter_okChar)
  next
    case (Cons d ds)
    with Cons.prems Cons.IH [of "Some c"] show ?thesis by simp
  qed
qed

lemma clean_trim: "alreadyClean x \<Longrightarrow> trim x = x"
proof (cases x)
  case Nil
  then show ?thesis by (simp add: trim_def)
next
  case (Cons c cs)
  assume cl: "alreadyClean x"
  with Cons have "okAfter None c" by (simp add: alreadyClean_def)
  then have "\<not> isSpace c"
    by (auto simp: okAfter_def dest: plainChar_facts isPunct_facts)
  with Cons have d: "dropWhile isSpace x = x" by simp
  from cl Cons have "okChar (last x) \<and> last x \<noteq> 32 \<and> last x \<noteq> 10"
    using cleanFrom_last [of None x] by (simp add: alreadyClean_def)
  then have nl: "\<not> isSpace (last x)" by (simp add: okChar_facts(1))
  from Cons obtain ys y where xy: "x = ys @ [y]" by (metis list.distinct(1) rev_exhaust)
  with nl have "\<not> isSpace y" by simp
  with xy have "dropWhile isSpace (rev x) = rev x" by simp
  with d show ?thesis by (simp add: trim_def)
qed

lemma clean_cleanSteps: "alreadyClean x \<Longrightarrow> cleanSteps x = x"
  by (simp add: cleanSteps_def Let_def fixApostrophes_id fixQuotes_id clean_fixEllipsis clean_fixEmDash
      clean_fixEnDash clean_removePageNumbers clean_fixHyphenation clean_collapseSpaces
      clean_collapseLineBreaks clean_trimLines clean_removeCitations clean_removeSpaceBeforePunct
      clean_spacePunct clean_removeUrls clean_removeEmails clean_trim)

lemma sampleText_clean: "alreadyClean sampleText"
  by (simp add: sampleText_def alreadyClean_def okAfter_def plainChar_def isSpace_def isDigit_def
      isPunct_def numberLine_def lineStart_def ustr_def)

text \<open>
  Claim C5, as amended: on already-clean text that canonical composition leaves as it
  is, the normalizer returns the text itself, and so normalizing twice gives what
  normalizing once gives.
\<close>

theorem cleanText_idempotent_on_clean:
  "alreadyClean x \<and> nfc x = x \<longrightarrow>
   cleanText nfc (JSString x) = x \<and>
   cleanText nfc (JSString (cleanText nfc (JSString x))) = cleanText nfc (JSString x)"
  by (simp add: clean_cleanSteps)

theorem cleanText_idempotent_on_clean_witness:
  "alreadyClean sampleText \<and>
   cleanText (\<lambda>s. s) (JSString sampleText) = sampleText \<and>
   cleanText (\<lambda>s. s) (JSString (cleanText (\<lambda>s. s) (JSString sampleText))) =
     cleanText (\<lambda>s. s) (JSString sampleText)"
  using cleanText_idempotent_on_clean [of sampleText "\<lambda>s. s"] sampleText_clean by simp

section \<open>Strings on their way to the store\<close>

lemma unpaired_simps [simp]:
  "\<not> isHighSurrogate (unpaired c)" "\<not> isLowSurrogate (unpaired c)"
  "unpaired (unpaired c) = unpaired c"
  by (simp_all add: unpaired_def isSurrogate_def isHighSurrogate_def isLowSurrogate_def)

lemma unpaired_plain: "\<not> isSurrogate c \<Longrightarrow> unpaired c = c"
  by (simp add: unpaired_def)

lemma scalars_Cons: "\<not> isHighSurrogate c \<Longrightarrow> scalars (c # s) = unpaired c # scalars s"
  by (cases s) simp_all

lemma scalars_Cons_lone:
  "\<not> isLowSurrogate d \<Longrightarrow> scalars (c # d # s) = unpaired c # scalars (d # s)"
  by simp

lemma toWellFormed_Cons:
  "\<not> isHighSurrogate c \<Longrightarrow> toWellFormed (c # s) = unpaired c # toWellFormed s"
  by (cases s) simp_all

text \<open>The store receives for the string read back what it received for the string sent.\<close>

lemma scalars_toWellFormed: "scalars (toWellFormed s) = scalars s"
  by (induction s rule: toWellFormed.induct) (simp_all add: scalars_Cons)

text \<open>A string without surrogates is sent as it is.\<close>

lemma scalars_plain: "list_all (\<lambda>c. \<not> isSurrogate c) s \<Longrightarrow> scalars s = s"
  by (induction s) (simp_all add: scalars_Cons isSurrogate_def unpaired_def)

lemma toWellFormed_plain: "list_all (\<lambda>c. \<not> isSurrogate c) s \<Longrightarrow> toWellFormed s = s"
  by (induction s) (simp_all add: toWellFormed_Cons isSurrogate_def unpaired_def)

lemma scalars_eq_plain:
  "list_all (\<lambda>c. \<not> isSurrogate c) s \<Longrightarrow> list_all (\<lambda>c. \<not> isSurrogate c) t \<Longrightarrow>
   scalars s = scalars t \<longleftrightarrow> s = t"
  by (simp add: scalars_plain)

text \<open>
  What is sent for a string followed by another is what is sent for the one, followed
  by what is sent for the other, unless the first ends with a high surrogate.
\<close>

lemma scalars_append:
  "s = [] \<or> \<not> isHighSurrogate (last s) \<Longrightarrow> scalars (s @ t) = scalars s @ scalars t"
proof (induction s rule: scalars.induct)
  case 1
  show ?case by simp
next
  case (2 c)
  then show ?case by (simp add: scalars_Cons)
next
  case (3 c d cs)
  show ?case
  proof (cases "isHighSurrogate c \<and> isLowSurrogate d")
    case True
    from "3.prems" True have "cs = [] \<or> \<not> isHighSurrogate (last cs)"
      by (auto simp: isHighSurrogate_def isLowSurrogate_def split: if_splits)
    with True "3.IH"(1) show ?thesis by simp
  next
    case False
    from "3.prems" have "d # cs = [] \<or> \<not> isHighSurrogate (last (d # cs))" by simp
    with False "3.IH"(2) have "scalars ((d # cs) @ t) = scalars (d # cs) @ scalars t" by blast
    with False show ?thesis by auto
  qed
qed

lemma toWellFormed_append:
  "s = [] \<or> \<not> isHighSurrogate (last s) \<Longrightarrow> toWellFormed (s @ t) = toWellFormed s @ toWellFormed t"
proof (induction s rule: toWellFormed.induct)
  case 1
  show ?case by simp
next
  case (2 c)
  then show ?case by (simp add: toWellFormed_Cons)
next
  case (3 c d cs)
  show ?case
  proof (cases "isHighSurrogate c \<and> isLowSurrogate d")
    case True
    from "3.prems" True have "cs = [] \<or> \<not> isHighSurrogate (last cs)"
      by (auto simp: isHighSurrogate_def isLowSurrogate_def split: if_splits)
    with True "3.IH"(1) show ?thesis by simp
  next
    case False
    from "3.prems" have "d # cs = [] \<or> \<not> isHighSurrogate (last (d # cs))" by simp
    with False "3.IH"(2) have "toWellFormed ((d # cs) @ t) = toWellFormed (d # cs) @ toWellFormed t"
      by blast
    with False show ?thesis by auto
  qed
qed

section \<open>The store gateway: without a handle\<close>

text \<open>
  When \<open>connect\<close> has resolved to \<open>null\<close>, every method throws a \<open>TypeError\<close> and the store
  is not reached; \<open>updateDocument\<close> has not yet touched the object it was given.
\<close>

lemma gateway_null_handle:
  "insertDocument (Resolved None) d coll = (Inl TypeError, coll)"
  "getDocumentById (Resolved None) i coll = Inl TypeError"
  "updateDocument u (Resolved None) now i patch coll = (patch, Inl TypeError, coll)"
  "deleteDocument (Resolved None) i coll = (Inl TypeError, coll)"
  "getCollectionStats q (Resolved None) coll = Inl TypeError"
  by (simp_all add: insertDocument_def getDocumentById_def updateDocument_def deleteDocument_def
      getCollectionStats_def)

text \<open>When \<open>connect\<close> has thrown, so does the method.\<close>

lemma gateway_connect_threw:
  "insertDocument Threw d coll = (Inl ConnectionError, coll)"
  "getDocumentById Threw i coll = Inl ConnectionError"
  "updateDocument u Threw now i patch coll = (patch, Inl ConnectionError, coll)"
  "deleteDocument Threw i coll = (Inl ConnectionError, coll)"
  "getCollectionStats q Threw coll = Inl ConnectionError"
  by (simp_all add: insertDocument_def getDocumentById_def updateDocument_def deleteDocument_def
      getCollectionStats_def)

section \<open>The store gateway: inserting\<close>

lemma stringField_simps [simp]:
  "stringField (ustr ''document_id'') d = Some (document_id d)"
  "stringField (ustr ''content_text'') d = Some (content_text d)"
  "stringField (ustr ''attribution.title'') d = Some (title (attribution d))"
  "stringField (ustr ''attribution.author'') d = Some (author (attribution d))"
  by (simp_all add: stringField_def ustr_def)

lemma matches_hasId: "matches [FieldEq (ustr ''document_id'') i] = hasId i"
  by (rule ext) (simp add: matches_def hasId_def)

lemma findOne_id:
  "findOne [FieldEq (ustr ''document_id'') i] coll =
     Inr (map_option snd (find (hasId i) (stored coll)))"
  by (simp add: findOne_def matches_hasId)

lemma find_None_list_ex: "find P xs = None \<longleftrightarrow> \<not> list_ex P xs"
  by (auto simp: find_None_iff list_ex_iff)

lemma hasId_same: "document_id (snd kd) = i \<Longrightarrow> hasId i kd"
  by (simp add: hasId_def)

lemma hasId_plain:
  "list_all (\<lambda>c. \<not> isSurrogate c) i \<Longrightarrow>
   list_all (\<lambda>c. \<not> isSurrogate c) (document_id (snd kd)) \<Longrightarrow>
   hasId i kd \<longleftrightarrow> document_id (snd kd) = i"
  by (simp add: hasId_def scalars_plain)

lemma hasId_sent: "hasId i (k, wireDocument r) \<longleftrightarrow> scalars (document_id r) = scalars i"
  by (simp add: hasId_def wireDocument_def scalars_toWellFormed)

text \<open>
  The escaped prefix, as the store receives it and reads it as a PCRE pattern,
  consists of literal characters only, and these are the code points of the prefix.
\<close>

lemma matchRegex_cls:
  "matchRegex [[cls p]] prev (c # cs) = (if p c then Some ([], 1) else None)"
  by (simp add: cls_def bounded_def)

lemma replaceAll_cls_escape:
  "replaceAll [[cls regexSpecial]] [Txt [92], Whole] prev s = concat (map escapeChar s)"
proof (induction s arbitrary: prev)
  case Nil
  show ?case by (simp add: cls_def bounded_def)
next
  case (Cons c cs)
  show ?case by (simp add: matchRegex_cls Cons.IH escapeChar_def del: matchRegex.simps)
qed

lemma escapeRegex_concat: "escapeRegex s = concat (map escapeChar s)"
  by (simp add: escapeRegex_def replace_def replaceAll_cls_escape)

lemma special_not_alnum: "regexSpecial c \<Longrightarrow> \<not> isAlnum c"
  by (auto simp: regexSpecial_def isAlnum_def)

lemma meta_special: "pcreMeta c \<Longrightarrow> regexSpecial c"
  by (auto simp: regexSpecial_def pcreMeta_def)

lemma special_not_surrogate: "regexSpecial c \<Longrightarrow> \<not> isSurrogate c"
  by (auto simp: regexSpecial_def isSurrogate_def isHighSurrogate_def isLowSurrogate_def)

lemma escapeChar_unpaired:
  "escapeChar (unpaired c) = (if regexSpecial c then [92, c] else [unpaired c])"
  by (auto simp: escapeChar_def unpaired_def regexSpecial_def isSurrogate_def
      isHighSurrogate_def isLowSurrogate_def)

lemma escapeChar_codePoint: "escapeChar (codePoint c d) = [codePoint c d]"
  by (simp add: escapeChar_def codePoint_def regexSpecial_def)

lemma scalars_escapeChar:
  "\<not> isHighSurrogate c \<Longrightarrow> scalars (escapeChar c @ s) = escapeChar (unpaired c) @ scalars s"
proof (cases "regexSpecial c")
  case True
  then have "\<not> isSurrogate c" by (rule special_not_surrogate)
  then have "\<not> isHighSurrogate c" "unpaired c = c" by (simp_all add: isSurrogate_def unpaired_def)
  moreover have "\<not> isHighSurrogate 92" "unpaired 92 = 92"
    by (simp_all add: isHighSurrogate_def unpaired_def isSurrogate_def isLowSurrogate_def)
  ultimately show ?thesis using True by (simp add: escapeChar_def scalars_Cons)
next
  case False
  assume "\<not> isHighSurrogate c"
  with False show ?thesis by (simp add: escapeChar_unpaired) (simp add: escapeChar_def scalars_Cons)
qed

lemma escapeChar_head: "\<exists>h t. escapeChar d @ s = h # t \<and> (isLowSurrogate h \<longrightarrow> isLowSurrogate d)"
  by (auto simp: escapeChar_def isLowSurrogate_def)

lemma scalars_escape: "scalars (concat (map escapeChar s)) = concat (map escapeChar (scalars s))"
proof (induction s rule: scalars.induct)
  case 1
  show ?case by simp
next
  case (2 c)
  show ?case
  proof (cases "regexSpecial c")
    case True
    then have "\<not> isSurrogate c" by (rule special_not_surrogate)
    then have "\<not> isHighSurrogate c" by (simp add: isSurrogate_def)
    then show ?thesis using scalars_escapeChar [of c "[]"] by simp
  next
    case False
    then show ?thesis by (simp add: escapeChar_unpaired) (simp add: escapeChar_def)
  qed
next
  case (3 c d cs)
  show ?case
  proof (cases "isHighSurrogate c \<and> isLowSurrogate d")
    case True
    then have "\<not> regexSpecial c" "\<not> regexSpecial d"
      using special_not_surrogate [of c] special_not_surrogate [of d] by (auto simp: isSurrogate_def)
    then have ec: "escapeChar c = [c]" "escapeChar d = [d]"
      by (simp_all add: escapeChar_def)
    from True "3.IH"(1) show ?thesis by (simp add: ec escapeChar_codePoint)
  next
    case False
    note IH = "3.IH"(2) [OF False]
    show ?thesis
    proof (cases "isHighSurrogate c")
      case nothigh: False
      have "scalars (concat (map escapeChar (c # d # cs))) =
            escapeChar (unpaired c) @ scalars (concat (map escapeChar (d # cs)))"
        using scalars_escapeChar [OF nothigh, of "concat (map escapeChar (d # cs))"] by simp
      with False IH show ?thesis by auto
    next
      case high: True
      with False have notlow: "\<not> isLowSurrogate d" by simp
      from high have ns: "\<not> regexSpecial c"
        using special_not_surrogate [of c] by (auto simp: isSurrogate_def)
      obtain h t where ht: "escapeChar d @ concat (map escapeChar cs) = h # t"
          and "isLowSurrogate h \<longrightarrow> isLowSurrogate d"
        using escapeChar_head [of d "concat (map escapeChar cs)"] by blast
      with notlow have "\<not> isLowSurrogate h" by simp
      then have "scalars (c # h # t) = unpaired c # scalars (h # t)" by simp
      with ht ns have "scalars (concat (map escapeChar (c # d # cs))) =
            unpaired c # scalars (concat (map escapeChar (d # cs)))"
        by (simp add: escapeChar_def)
      with False IH ns show ?thesis by (auto simp: escapeChar_unpaired)
    qed
  qed
qed

lemma pcreTokens_plain:
  "c \<noteq> 92 \<Longrightarrow> pcreTokens (c # s) = map_option (Cons (if pcreMeta c then PMeta c else PLit c)) (pcreTokens s)"
  by (cases s) simp_all

lemma pcreTokens_escaped:
  "\<not> isAlnum c \<Longrightarrow> pcreTokens (92 # c # s) = map_option (Cons (PLit c)) (pcreTokens s)"
  by simp

lemma pcreTokens_escape: "pcreTokens (concat (map escapeChar s)) = Some (map PLit s)"
proof (induction s)
  case Nil
  show ?case by simp
next
  case (Cons c cs)
  show ?case
  proof (cases "regexSpecial c")
    case True
    then show ?thesis
      using Cons.IH by (simp add: escapeChar_def pcreTokens_escaped special_not_alnum del: pcreTokens.simps)
  next
    case False
    then have "c \<noteq> 92" "\<not> pcreMeta c" by (auto simp: regexSpecial_def dest: meta_special)
    with False show ?thesis
      using Cons.IH by (simp add: escapeChar_def pcreTokens_plain del: pcreTokens.simps)
  qed
qed

lemma literals_PLit: "literals (map PLit s) = Some s"
  by (induction s) simp_all

lemma anchoredLiteral_escape: "anchoredLiteral (scalars (94 # escapeRegex p)) = Some (scalars p)"
proof -
  have "scalars (94 # escapeRegex p) = 94 # concat (map escapeChar (scalars p))"
    by (simp add: scalars_Cons escapeRegex_concat scalars_escape isHighSurrogate_def unpaired_def
        isSurrogate_def isLowSurrogate_def)
  then show ?thesis
    by (simp add: anchoredLiteral_def pcreTokens_plain pcreTokens_escape pcreMeta_def literals_PLit
        del: pcreTokens.simps)
qed

lemma matches_contentSignature: "matches (contentSignature r) kd \<longleftrightarrow> sameContent r kd"
  by (simp add: matches_def contentSignature_def anchoredLiteral_escape sameContent_def)

lemma findOne_contentSignature:
  "findOne (contentSignature r) coll = Inr (map_option snd (find (sameContent r) (stored coll)))"
proof -
  have "list_all condSupported (contentSignature r)"
    by (simp add: contentSignature_def anchoredLiteral_escape)
  moreover have "matches (contentSignature r) = sameContent r"
    by (rule ext) (rule matches_contentSignature)
  ultimately show ?thesis by (simp add: findOne_def)
qed

text \<open>\<open>insertDocument\<close> on an established connection, case by case.\<close>

lemma insertDocument_cases:
  "insertDocument (Resolved (Some h)) r coll =
     (if list_ex (hasId (document_id r)) (stored coll) then (Inl DuplicateIdError, coll)
      else if list_ex (sameContent r) (stored coll) then (Inl DuplicateContentError, coll)
      else (Inr (nextKey coll),
            coll\<lparr> nextKey := Suc (nextKey coll),
                  stored := stored coll @ [(nextKey coll, wireDocument r)] \<rparr>))"
proof -
  note id = findOne_id [of "document_id r" coll]
  show ?thesis
  proof (cases "find (hasId (document_id r)) (stored coll)")
    case (Some kd)
    then have "list_ex (hasId (document_id r)) (stored coll)"
      using find_None_list_ex [of "hasId (document_id r)" "stored coll"] by simp
    with Some show ?thesis by (simp add: insertDocument_def id)
  next
    case None
    then have noid: "\<not> list_ex (hasId (document_id r)) (stored coll)" by (simp add: find_None_list_ex)
    show ?thesis
    proof (cases "find (sameContent r) (stored coll)")
      case (Some kd)
      then have "list_ex (sameContent r) (stored coll)"
        using find_None_list_ex [of "sameContent r" "stored coll"] by simp
      with Some None noid show ?thesis
        by (simp add: insertDocument_def id findOne_contentSignature)
    next
      case None2: None
      then have "\<not> list_ex (sameContent r) (stored coll)" by (simp add: find_None_list_ex)
      with None2 None noid show ?thesis
        by (simp add: insertDocument_def id findOne_contentSignature insertOne_def)
    qed
  qed
qed

text \<open>The sample documents are sent as they are: they have no surrogate.\<close>

lemma emptyCollection_simps:
  "stored emptyCollection = []" "nextKey emptyCollection = 0"
  by (simp_all add: emptyCollection_def)

lemma trim_id: "s \<noteq> [] \<Longrightarrow> \<not> isSpace (hd s) \<Longrightarrow> \<not> isSpace (last s) \<Longrightarrow> trim s = s"
proof -
  assume s: "s \<noteq> []" and h: "\<not> isSpace (hd s)" and l: "\<not> isSpace (last s)"
  from s h have "dropWhile isSpace s = s" by (cases s) simp_all
  moreover from s l have "dropWhile isSpace (rev s) = rev s"
    by (cases "rev s") (simp_all add: hd_rev [symmetric])
  ultimately show ?thesis by (simp add: trim_def)
qed

lemma wire_public:
  "toWellFormed (trim x) = trim x \<Longrightarrow> k = sampleClock \<or> k = laterClock \<Longrightarrow>
   wireDocument (createDocumentStructure_public k (sampleForm\<lparr> content_text_value := x \<rparr>)) =
     createDocumentStructure_public k (sampleForm\<lparr> content_text_value := x \<rparr>)"
  by (auto simp: wireDocument_def createDocumentStructure_public_def documentLiteral_def Let_def
      sampleForm_def sampleClock_def laterClock_def orNull_def class_defs ustr_def trim_def
      unpaired_def isSurrogate_def isHighSurrogate_def isLowSurrogate_def)

lemma sampleForm_text: "sampleForm\<lparr> content_text_value := ustr ''Hello   world'' \<rparr> = sampleForm"
  by (simp add: sampleForm_def)

lemma wire_sampleDocument: "wireDocument sampleDocument = sampleDocument"
proof -
  have "toWellFormed (trim (ustr ''Hello   world'')) = trim (ustr ''Hello   world'')"
    by (simp add: class_defs ustr_def trim_def unpaired_def isSurrogate_def isHighSurrogate_def
        isLowSurrogate_def)
  then show ?thesis
    using wire_public [of "ustr ''Hello   world''" sampleClock]
    by (simp add: sampleDocument_def sampleForm_text)
qed

lemma sampleCollection_stored: "stored sampleCollection = [(0, sampleDocument)]"
  by (simp add: sampleCollection_def emptyCollection_def insertDocument_cases wire_sampleDocument)

lemma sample_insert:
  "insertDocument (Resolved (Some 0)) sampleDocument emptyCollection = (Inr 0, sampleCollection)"
  by (simp add: sampleCollection_def emptyCollection_def insertDocument_cases)

lemma public_id:
  "document_id (createDocumentStructure_public k f) =
     ustr ''text_content_'' @ dateNow k @ [95] @ take 9 (drop 2 (randomBase36 k))"
  by (simp add: createDocumentStructure_public_def documentLiteral_def Let_def)

lemma clock_ids:
  "scalars (ustr ''text_content_'' @ dateNow laterClock @ [95] @ take 9 (drop 2 (randomBase36 laterClock))) \<noteq>
   scalars (ustr ''text_content_'' @ dateNow sampleClock @ [95] @ take 9 (drop 2 (randomBase36 sampleClock)))"
  by (simp add: sampleClock_def laterClock_def ustr_def unpaired_def isSurrogate_def
      isHighSurrogate_def isLowSurrogate_def)

lemma sample_hasId: "hasId (document_id sampleDocument) (0, sampleDocument)"
  by (simp add: hasId_def)

text \<open>
  Claim C1, on an established connection. When a stored document has the \<open>document_id\<close> of
  \<open>r\<close>, \<open>insertDocument r\<close> fails with \<open>DuplicateIdError\<close> and leaves the collection as it
  was. Hence after a successful \<open>insertDocument\<close>, a second one with the same
  \<open>document_id\<close> fails so, and the collection has one document more than before the first
  call, not two.
\<close>

theorem insertDocument_duplicate_id:
  "(list_ex (hasId (document_id r)) (stored coll) \<longrightarrow>
      insertDocument (Resolved (Some h)) r coll = (Inl DuplicateIdError, coll)) \<and>
   (insertDocument (Resolved (Some h1)) r1 coll1 = (Inr k, coll2) \<and> document_id r2 = document_id r1 \<longrightarrow>
      insertDocument (Resolved (Some h2)) r2 coll2 = (Inl DuplicateIdError, coll2) \<and>
      length (stored (snd (insertDocument (Resolved (Some h2)) r2 coll2))) = Suc (length (stored coll1)))"
proof (intro conjI impI)
  assume "list_ex (hasId (document_id r)) (stored coll)"
  then show "insertDocument (Resolved (Some h)) r coll = (Inl DuplicateIdError, coll)"
    by (simp add: insertDocument_cases)
next
  assume a: "insertDocument (Resolved (Some h1)) r1 coll1 = (Inr k, coll2) \<and> document_id r2 = document_id r1"
  then have st: "stored coll2 = stored coll1 @ [(nextKey coll1, wireDocument r1)]"
    by (auto simp: insertDocument_cases split: if_splits)
  with a have "list_ex (hasId (document_id r2)) (stored coll2)" by (simp add: hasId_sent)
  then show "insertDocument (Resolved (Some h2)) r2 coll2 = (Inl DuplicateIdError, coll2)"
    by (simp add: insertDocument_cases)
  then show "length (stored (snd (insertDocument (Resolved (Some h2)) r2 coll2))) = Suc (length (stored coll1))"
    using st by simp
qed

theorem insertDocument_duplicate_id_witness:
  "list_ex (hasId (document_id sampleDocument)) (stored sampleCollection) \<and>
   insertDocument (Resolved (Some 0)) sampleDocument sampleCollection =
     (Inl DuplicateIdError, sampleCollection) \<and>
   insertDocument (Resolved (Some 0)) sampleDocument emptyCollection = (Inr 0, sampleCollection) \<and>
   stored sampleCollection = [(0, sampleDocument)] \<and>
   length (stored (snd (insertDocument (Resolved (Some 0)) sampleDocument sampleCollection))) =
     Suc (length (stored emptyCollection))"
  using insertDocument_duplicate_id
    [of sampleDocument sampleCollection 0 0 sampleDocument emptyCollection 0 sampleCollection
        sampleDocument 0]
  by (simp add: sampleCollection_stored sample_insert sample_hasId emptyCollection_simps)

text \<open>
  The content check, where the first 100 code units of the text do not end with a high
  surrogate: the pattern sent to the store, \<open>^\<close> and the escaped prefix, is read as the
  literal prefix, every pattern-special character being escaped. When no stored
  document has the \<open>document_id\<close> of \<open>r\<close> and one has the title and author of \<open>r\<close> and a
  text that begins with the first 100 code units of the text of \<open>r\<close>, \<open>insertDocument r\<close>
  fails with \<open>DuplicateContentError\<close> and leaves the collection as it was. On every text,
  \<open>insertDocument\<close> succeeds exactly when both checks of the store pass, and then the
  document is appended.
\<close>

lemma beginsAlike_sameContent: "uncut r \<Longrightarrow> beginsAlike r kd \<Longrightarrow> sameContent r kd"
proof -
  assume u: "uncut r" and b: "beginsAlike r kd"
  from b obtain rest where "content_text (snd kd) = take 100 (content_text r) @ rest"
    by (auto simp: beginsAlike_def prefix_def)
  with u have "scalars (content_text (snd kd)) = scalars (take 100 (content_text r)) @ scalars rest"
    by (simp add: uncut_def scalars_append)
  with b show ?thesis by (simp add: sameContent_def beginsAlike_def)
qed

lemma insertDocument_duplicate_content_uncut:
  "uncut r \<Longrightarrow> \<not> list_ex (hasId (document_id r)) (stored coll) \<Longrightarrow>
   list_ex (beginsAlike r) (stored coll) \<Longrightarrow>
   insertDocument (Resolved (Some h)) r coll = (Inl DuplicateContentError, coll)"
proof -
  assume u: "uncut r" and n: "\<not> list_ex (hasId (document_id r)) (stored coll)"
    and b: "list_ex (beginsAlike r) (stored coll)"
  from u b have "list_ex (sameContent r) (stored coll)"
    unfolding list_ex_iff using beginsAlike_sameContent by blast
  with n show ?thesis by (simp add: insertDocument_cases)
qed

lemma insertDocument_succeeds_iff:
  "(\<exists>k coll'. insertDocument (Resolved (Some h)) r coll = (Inr k, coll')) \<longleftrightarrow>
     \<not> list_ex (hasId (document_id r)) (stored coll) \<and> \<not> list_ex (sameContent r) (stored coll)"
  by (auto simp: insertDocument_cases)

lemma insertDocument_appends:
  "insertDocument (Resolved (Some h)) r coll = (Inr k, coll') \<Longrightarrow>
   stored coll' = stored coll @ [(nextKey coll, wireDocument r)]"
  by (auto simp: insertDocument_cases split: if_splits)

text \<open>
  So with the text of 105 code units that repeats \<open>a.*\<close> and ends with \<open>(b)\<close>: the second
  submission of the form is refused.
\<close>

lemma plain_replicate: "list_all P x \<Longrightarrow> list_all P (concat (replicate n x))"
  by (induction n) simp_all

lemma plain_uncut: "list_all (\<lambda>c. \<not> isSurrogate c) (content_text r) \<Longrightarrow> uncut r"
proof -
  assume p: "list_all (\<lambda>c. \<not> isSurrogate c) (content_text r)"
  show ?thesis
  proof (cases "take 100 (content_text r) = []")
    case True
    then show ?thesis by (simp add: uncut_def)
  next
    case False
    then have "last (take 100 (content_text r)) \<in> set (take 100 (content_text r))" by simp
    then have "last (take 100 (content_text r)) \<in> set (content_text r)" by (rule in_set_takeD)
    with p show ?thesis by (auto simp: uncut_def list_all_iff isSurrogate_def)
  qed
qed

lemma specialText_plain: "list_all (\<lambda>c. \<not> isSurrogate c) specialText"
  by (simp add: specialText_def plain_replicate ustr_def isSurrogate_def isHighSurrogate_def
      isLowSurrogate_def)

lemma hd_concat_replicate: "0 < n \<Longrightarrow> x \<noteq> [] \<Longrightarrow> hd (concat (replicate n x) @ y) = hd x"
  by (cases n) simp_all

lemma specialText_ends: "specialText \<noteq> [] \<and> hd specialText = 97 \<and> last specialText = 41"
proof -
  have "hd specialText = hd (ustr ''a.*'')"
    unfolding specialText_def by (rule hd_concat_replicate) (simp_all add: ustr_def)
  moreover have "specialText \<noteq> []" "last specialText = 41"
    by (simp_all add: specialText_def ustr_def)
  ultimately show ?thesis by (simp add: ustr_def)
qed

lemma specialText_trim: "trim specialText = specialText"
  using specialText_ends by (simp add: trim_id class_defs)

lemma special_content:
  "content_text specialDocument = specialText" "content_text specialLater = specialText"
  by (simp_all add: specialDocument_def specialLater_def specialForm_def specialText_trim
      createDocumentStructure_public_counts)

lemma wire_specialDocument: "wireDocument specialDocument = specialDocument"
  using wire_public [of specialText sampleClock]
  by (simp add: specialDocument_def specialForm_def specialText_trim toWellFormed_plain
      specialText_plain)

lemma specialCollection_stored: "stored specialCollection = [(0, specialDocument)]"
  by (simp add: specialCollection_def emptyCollection_def insertDocument_cases wire_specialDocument)

lemma special_ids: "\<not> hasId (document_id specialLater) (0, specialDocument)"
  using clock_ids by (simp add: hasId_def specialDocument_def specialLater_def public_id)

lemma special_beginsAlike: "beginsAlike specialLater (0, specialDocument)"
  by (simp add: beginsAlike_def special_content take_is_prefix)
     (simp add: specialDocument_def specialLater_def createDocumentStructure_public_def
      documentLiteral_def Let_def)

lemma special_length: "length specialText = 105"
  by (simp add: specialText_def ustr_def length_concat sum_list_replicate)

lemma special_refused:
  "insertDocument (Resolved (Some 0)) specialLater specialCollection =
     (Inl DuplicateContentError, specialCollection)"
  using insertDocument_duplicate_content_uncut [of specialLater specialCollection 0]
  by (simp add: specialCollection_stored special_ids special_beginsAlike plain_uncut
      special_content specialText_plain)

lemma escapeRegex_example:
  "escapeRegex (ustr ''a.*(b)'') = [97, 92, 46, 92, 42, 92, 40, 98, 92, 41]"
  by (simp add: escapeRegex_concat escapeChar_def regexSpecial_def ustr_def)

text \<open>The text with the surrogate pair at code units 100 and 101.\<close>

lemma plain_a: "list_all (\<lambda>c. \<not> isSurrogate c) (replicate n 97)"
  by (simp add: list_all_iff isSurrogate_def isHighSurrogate_def isLowSurrogate_def)

lemma not_high_a: "replicate 99 97 = [] \<or> \<not> isHighSurrogate (last (replicate 99 (97::nat)))"
  by (simp add: isHighSurrogate_def)

lemma astralText_sent: "toWellFormed astralText = astralText"
  using toWellFormed_append [OF not_high_a, of "[55357, 56832] @ ustr '' tail''"]
  by (simp add: astralText_def toWellFormed_plain plain_a)
     (simp add: ustr_def unpaired_def isSurrogate_def isHighSurrogate_def isLowSurrogate_def)

lemma astralText_scalars:
  "scalars astralText = replicate 99 97 @ [128512] @ ustr '' tail''"
  using scalars_append [OF not_high_a, of "[55357, 56832] @ ustr '' tail''"]
  by (simp add: astralText_def scalars_plain plain_a)
     (simp add: ustr_def unpaired_def isSurrogate_def isHighSurrogate_def isLowSurrogate_def
      codePoint_def)

lemma astralText_take: "take 100 astralText = replicate 99 97 @ [55357]"
  by (simp add: astralText_def)

lemma astralText_cut: "scalars (take 100 astralText) = replicate 99 97 @ [65533]"
  using scalars_append [OF not_high_a, of "[55357]"]
  by (simp add: astralText_take scalars_plain plain_a)
     (simp add: unpaired_def isSurrogate_def isHighSurrogate_def)

lemma astralText_trim: "trim astralText = astralText"
proof -
  have "astralText \<noteq> []" "hd astralText = 97" "last astralText = 108"
    by (simp_all add: astralText_def hd_append ustr_def)
  then show ?thesis by (simp add: trim_id class_defs)
qed

lemma astral_content:
  "content_text astralDocument = astralText" "content_text astralLater = astralText"
  by (simp_all add: astralDocument_def astralLater_def astralForm_def astralText_trim
      createDocumentStructure_public_counts)

lemma wire_astral:
  "wireDocument astralDocument = astralDocument" "wireDocument astralLater = astralLater"
  using wire_public [of astralText sampleClock] wire_public [of astralText laterClock]
  by (simp_all add: astralDocument_def astralLater_def astralForm_def astralText_trim
      astralText_sent)

lemma astralCollection_eq: "astralCollection = \<lparr> nextKey = 1, stored = [(0, astralDocument)] \<rparr>"
  by (simp add: astralCollection_def emptyCollection_def insertDocument_cases wire_astral)

lemma astral_ids: "\<not> hasId (document_id astralLater) (0, astralDocument)"
  using clock_ids by (simp add: hasId_def astralDocument_def astralLater_def public_id)

lemma astral_attribution: "attribution astralLater = attribution astralDocument"
  by (simp add: astralDocument_def astralLater_def createDocumentStructure_public_def
      documentLiteral_def Let_def)

lemma astral_not_sameContent: "\<not> sameContent astralLater (0, astralDocument)"
  by (simp add: sameContent_def astral_content astralText_cut astralText_scalars)

text \<open>
  Claim C2, at the form whose text is 99 times \<open>a\<close>, U+1F600 and \<open> tail\<close>, submitted twice
  on an established connection. The first document is stored. The second has another
  \<open>document_id\<close>, the title and the author of the first, and the text of the first, which
  therefore begins with the first 100 code units of the text of the second. The prefix
  ends with the high surrogate of U+1F600, for which the store receives U+FFFD, so the
  pattern does not match the stored text: \<open>insertDocument\<close> returns a key, and the
  collection holds both documents.
\<close>

theorem insertDocument_stores_cut_duplicate:
  "insertDocument (Resolved (Some 0)) astralDocument emptyCollection = (Inr 0, astralCollection) \<and>
   stored astralCollection = [(0, astralDocument)] \<and>
   document_id astralLater \<noteq> document_id astralDocument \<and>
   title (attribution astralLater) = title (attribution astralDocument) \<and>
   author (attribution astralLater) = author (attribution astralDocument) \<and>
   length (content_text astralLater) = 106 \<and>
   prefix (take 100 (content_text astralLater)) (content_text astralDocument) \<and>
   insertDocument (Resolved (Some 0)) astralLater astralCollection =
     (Inr 1, \<lparr> nextKey = 2, stored = [(0, astralDocument), (1, astralLater)] \<rparr>)"
proof -
  have "insertDocument (Resolved (Some 0)) astralDocument emptyCollection = (Inr 0, astralCollection)"
    by (simp add: astralCollection_def emptyCollection_def insertDocument_cases)
  moreover have "stored astralCollection = [(0, astralDocument)]"
    by (simp add: astralCollection_eq)
  moreover have "document_id astralLater \<noteq> document_id astralDocument"
    using astral_ids by (auto simp: hasId_def)
  moreover have "length (content_text astralLater) = 106"
    by (simp add: astral_content astralText_def ustr_def)
  moreover have "prefix (take 100 (content_text astralLater)) (content_text astralDocument)"
    by (simp add: astral_content take_is_prefix)
  moreover have "insertDocument (Resolved (Some 0)) astralLater astralCollection =
     (Inr 1, \<lparr> nextKey = 2, stored = [(0, astralDocument), (1, astralLater)] \<rparr>)"
    by (simp add: insertDocument_cases astralCollection_eq astral_ids astral_not_sameContent
        wire_astral)
  ultimately show ?thesis by (simp add: astral_attribution)
qed

section \<open>The store gateway: deleting\<close>

lemma deleteDocument_eq:
  "deleteDocument (Resolved (Some h)) i coll =
     (Inr (if list_ex (hasId i) (stored coll) then 1 else 0),
      coll\<lparr> stored := removeFirst (hasId i) (stored coll) \<rparr>)"
  by (simp add: deleteDocument_def deleteOne_def matches_hasId)

lemma removeFirst_absent: "\<not> list_ex P xs \<Longrightarrow> removeFirst P xs = xs"
  by (induction xs) auto

lemma removeFirst_present:
  "list_ex P xs \<Longrightarrow> \<exists>ys x zs. xs = ys @ x # zs \<and> P x \<and> \<not> list_ex P ys \<and> removeFirst P xs = ys @ zs"
proof (induction xs)
  case Nil
  then show ?case by simp
next
  case (Cons a xs)
  show ?case
  proof (cases "P a")
    case True
    then have "a # xs = [] @ a # xs \<and> P a \<and> \<not> list_ex P [] \<and> removeFirst P (a # xs) = [] @ xs"
      by simp
    then show ?thesis by blast
  next
    case False
    with Cons.prems have "list_ex P xs" by simp
    from Cons.IH [OF this] obtain ys x zs
      where "xs = ys @ x # zs" "P x" "\<not> list_ex P ys" "removeFirst P xs = ys @ zs" by blast
    with False have "a # xs = (a # ys) @ x # zs \<and> P x \<and> \<not> list_ex P (a # ys) \<and>
        removeFirst P (a # xs) = (a # ys) @ zs" by simp
    then show ?thesis by blast
  qed
qed

lemma removeFirst_distinct:
  "distinct (map f xs) \<Longrightarrow> \<not> list_ex (\<lambda>x. f x = i) (removeFirst (\<lambda>x. f x = i) xs)"
proof (induction xs)
  case Nil
  show ?case by simp
next
  case (Cons a xs)
  then show ?case by (auto simp: list_ex_iff image_iff)
qed

lemma hasId_alt: "hasId i = (\<lambda>kd. (scalars \<circ> document_id \<circ> snd) kd = scalars i)"
  by (rule ext) (simp add: hasId_def)

lemma sample_delete:
  "deleteDocument (Resolved (Some 0)) (document_id sampleDocument) sampleCollection
   = (Inr 1, sampleCollection\<lparr> stored := [] \<rparr>)"
  by (simp add: deleteDocument_eq sampleCollection_stored hasId_def)

text \<open>
  Claim C9, on an established connection. When no stored document has the id,
  \<open>deleteDocument\<close> completes without error and leaves the collection as it was. When one
  has it, \<open>deleteDocument\<close> completes without error and removes the first such document and
  nothing else. When the ids of the collection are distinct, no document with the id is
  left, and deleting again completes without error and changes nothing.
\<close>

theorem deleteDocument_idempotent:
  "(\<not> list_ex (hasId i) (stored coll) \<longrightarrow> deleteDocument (Resolved (Some h)) i coll = (Inr 0, coll)) \<and>
   (list_ex (hasId i1) (stored coll1) \<longrightarrow>
      (\<exists>xs kd ys. stored coll1 = xs @ kd # ys \<and> hasId i1 kd \<and> \<not> list_ex (hasId i1) xs \<and>
         deleteDocument (Resolved (Some h1)) i1 coll1 = (Inr 1, coll1\<lparr> stored := xs @ ys \<rparr>))) \<and>
   (distinct (map (scalars \<circ> document_id \<circ> snd) (stored coll2)) \<longrightarrow>
      \<not> list_ex (hasId i2) (stored (snd (deleteDocument (Resolved (Some h2)) i2 coll2))) \<and>
      deleteDocument (Resolved (Some h3)) i2 (snd (deleteDocument (Resolved (Some h2)) i2 coll2)) =
        (Inr 0, snd (deleteDocument (Resolved (Some h2)) i2 coll2)))"
proof (intro conjI impI)
  assume "\<not> list_ex (hasId i) (stored coll)"
  then show "deleteDocument (Resolved (Some h)) i coll = (Inr 0, coll)"
    by (simp add: deleteDocument_eq removeFirst_absent)
next
  assume "list_ex (hasId i1) (stored coll1)"
  then show "\<exists>xs kd ys. stored coll1 = xs @ kd # ys \<and> hasId i1 kd \<and> \<not> list_ex (hasId i1) xs \<and>
         deleteDocument (Resolved (Some h1)) i1 coll1 = (Inr 1, coll1\<lparr> stored := xs @ ys \<rparr>)"
    using removeFirst_present [of "hasId i1" "stored coll1"]
    by (simp add: deleteDocument_eq) metis
next
  assume d: "distinct (map (scalars \<circ> document_id \<circ> snd) (stored coll2))"
  then show gone: "\<not> list_ex (hasId i2) (stored (snd (deleteDocument (Resolved (Some h2)) i2 coll2)))"
    using removeFirst_distinct [of "scalars \<circ> document_id \<circ> snd" "stored coll2" "scalars i2"]
    by (simp add: deleteDocument_eq hasId_alt)
  then show "deleteDocument (Resolved (Some h3)) i2 (snd (deleteDocument (Resolved (Some h2)) i2 coll2)) =
        (Inr 0, snd (deleteDocument (Resolved (Some h2)) i2 coll2))"
    by (simp add: deleteDocument_eq removeFirst_absent)
qed

theorem deleteDocument_idempotent_witness:
  "\<not> list_ex (hasId (document_id sampleDocument)) (stored emptyCollection) \<and>
   deleteDocument (Resolved (Some 0)) (document_id sampleDocument) emptyCollection =
     (Inr 0, emptyCollection) \<and>
   list_ex (hasId (document_id sampleDocument)) (stored sampleCollection) \<and>
   deleteDocument (Resolved (Some 0)) (document_id sampleDocument) sampleCollection =
     (Inr 1, sampleCollection\<lparr> stored := [] \<rparr>) \<and>
   distinct (map (scalars \<circ> document_id \<circ> snd) (stored sampleCollection)) \<and>
   deleteDocument (Resolved (Some 0)) (document_id sampleDocument)
       (snd (deleteDocument (Resolved (Some 0)) (document_id sampleDocument) sampleCollection)) =
     (Inr 0, snd (deleteDocument (Resolved (Some 0)) (document_id sampleDocument) sampleCollection))"
  using deleteDocument_idempotent
    [of "document_id sampleDocument" emptyCollection 0 "document_id sampleDocument" sampleCollection 0
        sampleCollection "document_id sampleDocument" 0 0]
  by (simp add: sampleCollection_stored sample_delete hasId_def emptyCollection_simps)

section \<open>The store gateway: statistics\<close>

lemma getCollectionStats_nonempty:
  "stored coll \<noteq> [] \<Longrightarrow>
   getCollectionStats q (Resolved (Some h)) coll =
     Inr \<lparr> totalDocuments = int (length (stored coll)),
       totalCharacters = (\<Sum>kd\<leftarrow>stored coll. character_count (training_metadata (snd kd))),
       totalTokens = (\<Sum>kd\<leftarrow>stored coll. token_count (training_metadata (snd kd))),
       averageWeight = avg q (map (\<lambda>kd. weighting (training_metadata (snd kd))) (stored coll)),
       contentTypes = remdups (map (\<lambda>kd. content_type (attribution (snd kd))) (stored coll)) \<rparr>"
  by (simp add: getCollectionStats_def groupAll_def Let_def comp_def)


lemma unweighted_weight: "weighting (training_metadata unweightedDocument) = None"
  by (simp add: unweightedDocument_def createDocumentStructure_public_def documentLiteral_def Let_def
      sampleForm_def parseInt_def)


lemma unweighted_counts:
  "character_count (training_metadata unweightedDocument) = 13"
  "token_count (training_metadata unweightedDocument) = 4"
  "content_type (attribution unweightedDocument) = ustr ''book''"
  by (simp_all add: unweightedDocument_def createDocumentStructure_public_counts sample_text_trim)
     (simp_all add: ustr_def createDocumentStructure_public_def documentLiteral_def Let_def sampleForm_def)



text \<open>A collection without a numeric weighting has the average \<open>null\<close>.\<close>

lemma getCollectionStats_no_weight:
  "getCollectionStats q (Resolved (Some 0)) \<lparr> nextKey = 1, stored = [(0, unweightedDocument)] \<rparr> =
     Inr \<lparr> totalDocuments = 1, totalCharacters = 13, totalTokens = 4,
           averageWeight = None, contentTypes = [ustr ''book''] \<rparr>"
  by (simp add: getCollectionStats_nonempty avg_def unweighted_weight unweighted_counts)

section \<open>The store gateway: updating\<close>

lemma updateDocument_patch:
  "fst (updateDocument u (Resolved (Some h)) now i patch coll) =
     AList.update (ustr ''version'') versionOperand
       (AList.update (ustr ''updated_at'') (JSString now) patch)"
  by (simp add: updateDocument_def Let_def split: sum.split prod.split)

lemma version_not_updated_at: "ustr ''version'' \<noteq> ustr ''updated_at''"
  by (simp add: ustr_def)

text \<open>
  Claim C10, on an established connection and whatever the store answers. After
  \<open>updateDocument\<close> the caller's object has \<open>updated_at\<close> set to the time of the call and
  \<open>version\<close> set to the object \<open>{ $inc: { version: 1 } }\<close>, whatever it held before; its
  other properties are as they were. The method sends one request to the store: the
  filter is the \<open>document_id\<close>, the operand of \<open>$set\<close> is this object, and the operand of
  \<open>$inc\<close> is \<open>version\<close> by 1. The result of the method is the answer to that request.
\<close>

theorem updateDocument_mutates_patch:
  "map_of (fst (updateDocument u (Resolved (Some h)) now i patch coll)) (ustr ''updated_at'') =
     Some (JSString now) \<and>
   map_of (fst (updateDocument u (Resolved (Some h)) now i patch coll)) (ustr ''version'') =
     Some (JSObject [(ustr ''$inc'', JSObject [(ustr ''version'', JSNumber 1)])]) \<and>
   (\<forall>k. k \<noteq> ustr ''updated_at'' \<and> k \<noteq> ustr ''version'' \<longrightarrow>
      map_of (fst (updateDocument u (Resolved (Some h)) now i patch coll)) k = map_of patch k) \<and>
   snd (updateDocument u (Resolved (Some h)) now i patch coll) =
     (case u [FieldEq (ustr ''document_id'') i]
             \<lparr> set_op = fst (updateDocument u (Resolved (Some h)) now i patch coll),
               inc_op = [(ustr ''version'', 1)] \<rparr> coll of
        Inl e \<Rightarrow> (Inl e, coll)
      | Inr (n, coll') \<Rightarrow> (Inr n, coll'))"
proof (intro conjI allI impI)
  show "map_of (fst (updateDocument u (Resolved (Some h)) now i patch coll)) (ustr ''updated_at'') =
     Some (JSString now)"
    using version_not_updated_at by (simp add: updateDocument_patch update_conv')
  show "map_of (fst (updateDocument u (Resolved (Some h)) now i patch coll)) (ustr ''version'') =
     Some (JSObject [(ustr ''$inc'', JSObject [(ustr ''version'', JSNumber 1)])])"
    by (simp add: updateDocument_patch update_conv' versionOperand_def)
  show "snd (updateDocument u (Resolved (Some h)) now i patch coll) =
     (case u [FieldEq (ustr ''document_id'') i]
             \<lparr> set_op = fst (updateDocument u (Resolved (Some h)) now i patch coll),
               inc_op = [(ustr ''version'', 1)] \<rparr> coll of
        Inl e \<Rightarrow> (Inl e, coll)
      | Inr (n, coll') \<Rightarrow> (Inr n, coll'))"
    unfolding updateDocument_patch
    by (simp add: updateDocument_def Let_def split: sum.split prod.split)
next
  fix k assume "k \<noteq> ustr ''updated_at'' \<and> k \<noteq> ustr ''version''"
  then show "map_of (fst (updateDocument u (Resolved (Some h)) now i patch coll)) k = map_of patch k"
    by (simp add: updateDocument_patch update_conv')
qed

theorem updateDocument_mutates_patch_witness:
  "ustr ''content_text'' \<noteq> ustr ''updated_at'' \<and> ustr ''content_text'' \<noteq> ustr ''version'' \<and>
   map_of (fst (updateDocument
      (expecting [FieldEq (ustr ''document_id'') (document_id sampleDocument)]
         \<lparr> set_op =
             [(ustr ''content_text'', JSString (ustr ''Hello world'')),
              (ustr ''version'', JSObject [(ustr ''$inc'', JSObject [(ustr ''version'', JSNumber 1)])]),
              (ustr ''updated_at'', JSString (ustr ''2024-01-01T00:00:00.000Z''))],
           inc_op = [(ustr ''version'', 1)] \<rparr>)
      (Resolved (Some 0)) (ustr ''2024-01-01T00:00:00.000Z'') (document_id sampleDocument)
      [(ustr ''content_text'', JSString (ustr ''Hello world'')), (ustr ''version'', JSNumber 7)]
      sampleCollection)) (ustr ''content_text'') = Some (JSString (ustr ''Hello world'')) \<and>
   updateDocument
      (expecting [FieldEq (ustr ''document_id'') (document_id sampleDocument)]
         \<lparr> set_op =
             [(ustr ''content_text'', JSString (ustr ''Hello world'')),
              (ustr ''version'', JSObject [(ustr ''$inc'', JSObject [(ustr ''version'', JSNumber 1)])]),
              (ustr ''updated_at'', JSString (ustr ''2024-01-01T00:00:00.000Z''))],
           inc_op = [(ustr ''version'', 1)] \<rparr>)
      (Resolved (Some 0)) (ustr ''2024-01-01T00:00:00.000Z'') (document_id sampleDocument)
      [(ustr ''content_text'', JSString (ustr ''Hello world'')), (ustr ''version'', JSNumber 7)]
      sampleCollection =
     ([(ustr ''content_text'', JSString (ustr ''Hello world'')),
       (ustr ''version'', JSObject [(ustr ''$inc'', JSObject [(ustr ''version'', JSNumber 1)])]),
       (ustr ''updated_at'', JSString (ustr ''2024-01-01T00:00:00.000Z''))],
      Inr 1, sampleCollection)"
proof -
  let ?patch = "[(ustr ''content_text'', JSString (ustr ''Hello world'')), (ustr ''version'', JSNumber 7)]"
  let ?sent = "[(ustr ''content_text'', JSString (ustr ''Hello world'')),
       (ustr ''version'', JSObject [(ustr ''$inc'', JSObject [(ustr ''version'', JSNumber 1)])]),
       (ustr ''updated_at'', JSString (ustr ''2024-01-01T00:00:00.000Z''))]"
  let ?store = "expecting [FieldEq (ustr ''document_id'') (document_id sampleDocument)]
         \<lparr> set_op = ?sent, inc_op = [(ustr ''version'', 1)] \<rparr>"
  let ?call = "updateDocument ?store (Resolved (Some 0)) (ustr ''2024-01-01T00:00:00.000Z'')
      (document_id sampleDocument) ?patch sampleCollection"
  have k: "ustr ''content_text'' \<noteq> ustr ''updated_at'' \<and> ustr ''content_text'' \<noteq> ustr ''version''"
    by (simp add: ustr_def)
  note inst = updateDocument_mutates_patch
      [of ?store 0 "ustr ''2024-01-01T00:00:00.000Z''" "document_id sampleDocument" ?patch
          sampleCollection]
  have sent: "fst ?call = ?sent"
    by (simp add: updateDocument_patch versionOperand_def) (simp add: ustr_def)
  from inst k have "map_of (fst ?call) (ustr ''content_text'') = map_of ?patch (ustr ''content_text'')"
    by blast
  then have m: "map_of (fst ?call) (ustr ''content_text'') = Some (JSString (ustr ''Hello world''))"
    by simp
  from inst have "snd ?call =
     (case ?store [FieldEq (ustr ''document_id'') (document_id sampleDocument)]
             \<lparr> set_op = fst ?call, inc_op = [(ustr ''version'', 1)] \<rparr> sampleCollection of
        Inl e \<Rightarrow> (Inl e, sampleCollection)
      | Inr (n, coll') \<Rightarrow> (Inr n, coll'))"
    by blast
  then have "snd ?call = (Inr 1, sampleCollection)"
    unfolding sent by (simp add: expecting_def)
  with sent have "?call = (?sent, Inr 1, sampleCollection)"
    by (metis prod.collapse)
  with k m show ?thesis by simp
qed

text \<open>
  With the store of this model, the update names \<open>version\<close> under \<open>$set\<close> and under \<open>$inc\<close>:
  the store rejects it, and the collection stays as it was, whatever the id and the
  object given.
\<close>

lemma pathConflict_refl: "pathConflict p p"
  by (simp add: pathConflict_def)

lemma updateDocument_conflict:
  "snd (updateDocument updateOne (Resolved (Some h)) now i patch coll) =
     (Inl (ConflictingUpdateOperators (ustr ''version'')), coll)"
proof -
  let ?p = "AList.update (ustr ''version'') versionOperand
       (AList.update (ustr ''updated_at'') (JSString now) patch)"
  have "ustr ''version'' \<in> fst ` set ?p" by (simp add: dom_update)
  then obtain kv where "kv \<in> set ?p" "fst kv = ustr ''version''" by auto
  then have "list_ex (pathConflict (ustr ''version'')) (map fst ?p)"
    using pathConflict_refl [of "ustr ''version''"] unfolding list_ex_iff by force
  then have "conflictingPath \<lparr> set_op = ?p, inc_op = [(ustr ''version'', 1)] \<rparr> = Some (ustr ''version'')"
    by (simp add: conflictingPath_def)
  then show ?thesis by (simp add: updateDocument_def updateOne_def Let_def)
qed

text \<open>
  Claim C3, on an established connection, at the collection holding the sample document,
  whose \<open>version\<close> is 1, and the empty object as \<open>updateData\<close>: \<open>updateDocument\<close> with the id
  of that document fails with the store's conflict error, and the collection, hence the
  document and its \<open>version\<close>, is as before.
\<close>

theorem updateDocument_rejected:
  "getDocumentById (Resolved (Some 0)) (document_id sampleDocument) sampleCollection =
     Inr (Some sampleDocument) \<and>
   version sampleDocument = 1 \<and>
   snd (updateDocument updateOne (Resolved (Some 0)) (ustr ''2024-01-01T00:00:00.000Z'')
          (document_id sampleDocument) [] sampleCollection) =
     (Inl (ConflictingUpdateOperators (ustr ''version'')), sampleCollection)"
  by (simp add: updateDocument_conflict getDocumentById_def findOne_id sampleCollection_stored
      sample_hasId)
     (simp add: sampleDocument_def createDocumentStructure_public_def documentLiteral_def Let_def)

section \<open>Connecting: one client, and what a second caller gets\<close>

text \<open>A later call, after the first has returned, gets the same handle, and no new client is made.\<close>

lemma connect_sequential:
  "run [Enter 0, Connected 0, Enter 1] (newService 2) =
     \<lparr> client = Some 0, db = Some 0, clientsCreated = 1,
       calls = [Returned (Some 0), Returned (Some 0)] \<rparr>"
  by (simp add: newService_def callState_def numeral_2_eq_2)

text \<open>Whatever the calls and their order, the service makes at most one client.\<close>

lemma fire_oneClient: "oneClient w \<Longrightarrow> oneClient (fire e w)"
  by (cases e) (auto simp: oneClient_def split: option.splits)

lemma run_oneClient: "oneClient w \<Longrightarrow> oneClient (run es w)"
  by (induction es arbitrary: w) (simp_all add: fire_oneClient)

lemma connect_single_client: "clientsCreated (run es (newService n)) \<le> 1"
proof -
  have "oneClient (newService n)" by (simp add: oneClient_def newService_def)
  then have "oneClient (run es (newService n))" by (rule run_oneClient)
  then show ?thesis by (simp add: oneClient_def split: option.splits)
qed

text \<open>After a connection that failed, the client stays in place and a later call returns \<open>null\<close>.\<close>

lemma connect_failed_stays:
  "run [Enter 0, Failed 0, Enter 1] (newService 2) =
     \<lparr> client = Some 0, db = None, clientsCreated = 1, calls = [Rejected, Returned None] \<rparr>"
  by (simp add: newService_def callState_def numeral_2_eq_2)

text \<open>
  What the methods of the gateway get from their call of \<open>connect\<close>: a handle from a call
  made after the connection is there; \<open>null\<close> from a call made while another call awaits
  the connection, or after the connection has failed. With \<open>null\<close> the method throws a
  \<open>TypeError\<close> (\<open>gateway_null_handle\<close>).
\<close>

lemma connect_outcomes:
  "map outcome (calls (run [Enter 0, Connected 0, Enter 1] (newService 2))) =
     [Some (Resolved (Some 0)), Some (Resolved (Some 0))]"
  "map outcome (calls (run [Enter 0, Enter 1] (newService 2))) = [None, Some (Resolved None)]"
  "map outcome (calls (run [Enter 0, Failed 0, Enter 1] (newService 2))) =
     [Some Threw, Some (Resolved None)]"
  by (simp_all add: newService_def callState_def numeral_2_eq_2 outcome_def)

text \<open>
  Claim C8, at two calls of \<open>connect\<close> on a new service, the second made while the first
  awaits its connection: the second call does not wait, it returns at once, and what it
  returns is \<open>null\<close>, the value of \<open>db\<close> at that moment. When the connection is there, the
  first call returns the handle; the second has returned \<open>null\<close>.
\<close>

theorem connect_in_flight_returns_null:
  "run [Enter 0, Enter 1] (newService 2) =
     \<lparr> client = Some 0, db = None, clientsCreated = 1, calls = [Awaiting, Returned None] \<rparr> \<and>
   run [Enter 0, Enter 1, Connected 0] (newService 2) =
     \<lparr> client = Some 0, db = Some 0, clientsCreated = 1, calls = [Returned (Some 0), Returned None] \<rparr>"
  by (simp add: newService_def callState_def numeral_2_eq_2)

end
